theory Spec2Isabelle
  imports Complex_Main "HOL-Library.Word"
begin

unbundle bit_operations_syntax

section \<open>The environment: files as the Go runtime presents them\<close>

text \<open>
  The scanner reaches a target only through \<^verbatim>\<open>os.Open\<close>, \<^verbatim>\<open>f.Stat\<close> and
  sequential reads. A path either fails to open or yields a file; the file's
  \<^verbatim>\<open>Stat\<close> either fails or reports a mode and a size; reading delivers the
  content in order and may hit an I/O fault at some offset. Every function of
  \<^verbatim>\<open>fileutils\<close> opens the path afresh, so each starts reading at offset 0.
  The file system is a snapshot: it does not change between two calls.

  A path fails to open (\<open>None\<close>) when nothing is there, when access is refused,
  when it is a socket, or when it is a symbolic link whose target is missing:
  \<^verbatim>\<open>os.Open\<close> follows symbolic links, and \<^verbatim>\<open>f.Stat\<close> is the status of the opened
  file, never that of a link. An \<^verbatim>\<open>os.Open\<close> that does not return (a FIFO that no
  writer has opened) is no outcome of this model; a FIFO is in it as an opened file
  only. The size that \<^verbatim>\<open>Stat\<close> reports and the number of bytes that the reads
  deliver are independent: a file may grow after \<^verbatim>\<open>Stat\<close>.
\<close>

type_synonym byte = "8 word"

datatype file_type =
  Regular | Directory | Symlink | NamedPipe | Socket | Device | CharDevice | Irregular

text \<open>\<^verbatim>\<open>FileMode.IsRegular\<close>: no type bit is set.\<close>

definition IsRegular :: "file_type \<Rightarrow> bool" where
  "IsRegular m = (m = Regular)"

record file_stat =
  st_mode :: file_type
  st_size :: int

record os_file =
  stat :: "file_stat option"
  content :: "byte list"
  read_fault :: "nat option"

type_synonym filesystem = "string \<Rightarrow> os_file option"

text \<open>
  Which computation an error message names (the messages of \<^verbatim>\<open>Entropy\<close> say
  ``to calculate entropy'', those of the four hash functions ``to calculate hash'').
\<close>

datatype purpose = ForElfType | ForEntropy | ForHash

text \<open>
  The errors of \<^verbatim>\<open>fileutils\<close>, by kind; the formatted message text is not
  modelled beyond the values it is built from.
\<close>

datatype error =
    ErrNoPath purpose
  | ErrOpen purpose
  | ErrStat
  | ErrNotRegular purpose
  | ErrTooLarge purpose int int
  | ErrRead purpose
  | ErrEOF
  | ErrUnexpectedEOF
  | ErrHexInvalidByte char
  | ErrHexLength
  | ErrMagicTooLong

text \<open>The bytes a reader obtains before end of file or the fault.\<close>

definition readable :: "os_file \<Rightarrow> byte list" where
  "readable f = (case read_fault f of None \<Rightarrow> content f | Some k \<Rightarrow> take k (content f))"

datatype read_result = ReadBytes "byte list" | ReadEOF | ReadFail

text \<open>
  \<^verbatim>\<open>f.Read(buf)\<close> at offset \<open>off\<close> with a buffer of \<open>n\<close> bytes: the next bytes, at
  most \<open>n\<close> of them; past the last readable byte, \<^verbatim>\<open>io.EOF\<close> or the fault.
\<close>

definition file_Read :: "os_file \<Rightarrow> nat \<Rightarrow> nat \<Rightarrow> read_result" where
  "file_Read f off n =
     (if off < length (readable f) then ReadBytes (take n (drop off (readable f)))
      else if read_fault f = None then ReadEOF
      else ReadFail)"

text \<open>
  \<^verbatim>\<open>binary.Read(f, binary.LittleEndian, &hexData)\<close> for a byte array of \<open>n\<close>
  elements is \<^verbatim>\<open>io.ReadFull\<close> of \<open>n\<close> bytes, kept in file order.
\<close>

definition binary_Read :: "os_file \<Rightarrow> nat \<Rightarrow> error + byte list" where
  "binary_Read f n =
     (if n \<le> length (readable f) then Inr (take n (readable f))
      else if read_fault f \<noteq> None then Inl (ErrRead ForElfType)
      else if readable f = [] then Inl ErrEOF
      else Inl ErrUnexpectedEOF)"

text \<open>
  \<^verbatim>\<open>io.Copy(hash, f)\<close>: every byte of the file reaches the hash, or the copy
  fails with the read error.
\<close>

definition io_Copy :: "os_file \<Rightarrow> error + byte list" where
  "io_Copy f = (if read_fault f = None then Inr (content f) else Inl (ErrRead ForHash))"

section \<open>encoding/hex\<close>

definition fromHexChar :: "char \<Rightarrow> byte option" where
  "fromHexChar c =
     (let n = (of_char c :: nat) in
      if 48 \<le> n \<and> n \<le> 57 then Some (of_nat (n - 48))
      else if 97 \<le> n \<and> n \<le> 102 then Some (of_nat (n - 97 + 10))
      else if 65 \<le> n \<and> n \<le> 70 then Some (of_nat (n - 65 + 10))
      else None)"

fun hex_DecodeString :: "string \<Rightarrow> error + byte list" where
  "hex_DecodeString [] = Inr []"
| "hex_DecodeString [p] =
     (case fromHexChar p of None \<Rightarrow> Inl (ErrHexInvalidByte p) | Some a \<Rightarrow> Inl ErrHexLength)"
| "hex_DecodeString (p # q # rest) =
     (case fromHexChar p of
        None \<Rightarrow> Inl (ErrHexInvalidByte p)
      | Some a \<Rightarrow>
          (case fromHexChar q of
             None \<Rightarrow> Inl (ErrHexInvalidByte q)
           | Some b \<Rightarrow>
               (case hex_DecodeString rest of
                  Inl e \<Rightarrow> Inl e
                | Inr bs \<Rightarrow> Inr ((push_bit 4 a OR b) # bs))))"

definition hextable :: string where
  "hextable = ''0123456789abcdef''"

definition hex_EncodeToString :: "byte list \<Rightarrow> string" where
  "hex_EncodeToString src =
     concat (map (\<lambda>v. [hextable ! unat (drop_bit 4 v), hextable ! unat (v AND 0x0f)]) src)"

section \<open>fileutils: constants and IsElfType\<close>

definition constMaxFileSize :: int where
  "constMaxFileSize = 2147483648"

definition constMaxEntropyChunk :: nat where
  "constMaxEntropyChunk = 256000"

definition constMagicNumRead :: nat where
  "constMagicNumRead = 4"

definition constMagicNumElf :: string where
  "constMagicNumElf = ''7f454c46''"

definition IsElfType :: "filesystem \<Rightarrow> string \<Rightarrow> error + bool" where
  "IsElfType fs path =
     (if path = [] then Inl (ErrNoPath ForElfType)
      else case fs path of
        None \<Rightarrow> Inl (ErrOpen ForElfType)
      | Some f \<Rightarrow>
          (case stat f of
             None \<Rightarrow> Inl ErrStat
           | Some fStat \<Rightarrow>
               if \<not> IsRegular (st_mode fStat) then Inr False
               else if st_size fStat < int constMagicNumRead then Inr False
               else (case binary_Read f constMagicNumRead of
                       Inl err \<Rightarrow> Inl err
                     | Inr hexData \<Rightarrow>
                         (case hex_DecodeString constMagicNumElf of
                            Inl err \<Rightarrow> Inl err
                          | Inr elfType \<Rightarrow>
                              if length elfType > constMagicNumRead then Inl ErrMagicTooLong
                              else if take (length elfType) hexData = elfType then Inr True
                              else Inr False))))"

section \<open>fileutils: Entropy\<close>

text \<open>
  A \<^verbatim>\<open>float64\<close> value is read as the real number it stands for; the computation
  below meets neither a NaN nor an infinity. The conversion of the integers at hand,
  negation, comparison and \<^verbatim>\<open>math.Round\<close> (half away from zero) are exact in
  \<^verbatim>\<open>float64\<close>. Division, multiplication, addition and \<^verbatim>\<open>math.Log2\<close> round
  their results. How they round is the platform's and the Go library's business,
  not this repository's: the four operations are parameters of the model, and no
  theorem takes them to be exact unless it says so.
  The counters are Go \<^verbatim>\<open>int\<close>s, here \<open>int\<close> (no overflow on a 64-bit target).
\<close>

record float64_arith =
  f_div :: "real \<Rightarrow> real \<Rightarrow> real"
  f_mul :: "real \<Rightarrow> real \<Rightarrow> real"
  f_add :: "real \<Rightarrow> real \<Rightarrow> real"
  f_log2 :: "real \<Rightarrow> real"

definition math_Round :: "real \<Rightarrow> real" where
  "math_Round x = (if x < 0 then - of_int \<lfloor>- x + 1 / 2\<rfloor> else of_int \<lfloor>x + 1 / 2\<rfloor>)"

text \<open>The inner loop: one increment per byte of the chunk that was read.\<close>

definition count_chunk :: "byte list \<Rightarrow> int list \<Rightarrow> int list" where
  "count_chunk dataBytes byteCounts =
     fold (\<lambda>b counts. counts[unat b := counts ! unat b + 1]) dataBytes byteCounts"

text \<open>The read loop: chunk after chunk until \<^verbatim>\<open>io.EOF\<close> or a read error.\<close>

function entropy_read_loop :: "os_file \<Rightarrow> nat \<Rightarrow> int list \<Rightarrow> error + int list" where
  "entropy_read_loop f off byteCounts =
     (case file_Read f off constMaxEntropyChunk of
        ReadEOF \<Rightarrow> Inr byteCounts
      | ReadFail \<Rightarrow> Inl (ErrRead ForEntropy)
      | ReadBytes dataBytes \<Rightarrow>
          entropy_read_loop f (off + length dataBytes) (count_chunk dataBytes byteCounts))"
  by pat_completeness auto
termination
  by (relation "measure (\<lambda>(f, off, byteCounts). length (readable f) - off)")
     (auto simp: file_Read_def constMaxEntropyChunk_def split: if_splits)

declare entropy_read_loop.simps [simp del]

text \<open>The loop over the 256 symbols.\<close>

definition entropy_sum :: "float64_arith \<Rightarrow> int list \<Rightarrow> int \<Rightarrow> real" where
  "entropy_sum fp byteCounts size' =
     fold (\<lambda>i entropy.
             let px = f_div fp (real_of_int (byteCounts ! i)) (real_of_int size')
             in if px > 0 then f_add fp entropy (f_mul fp (- px) (f_log2 fp px)) else entropy)
          [0..<256] 0"

definition Entropy :: "float64_arith \<Rightarrow> filesystem \<Rightarrow> string \<Rightarrow> error + real" where
  "Entropy fp fs path =
     (if path = [] then Inl (ErrNoPath ForEntropy)
      else case fs path of
        None \<Rightarrow> Inl (ErrOpen ForEntropy)
      | Some f \<Rightarrow>
          (case stat f of
             None \<Rightarrow> Inl ErrStat
           | Some fStat \<Rightarrow>
               if \<not> IsRegular (st_mode fStat) then Inl (ErrNotRegular ForEntropy)
               else let size' = st_size fStat in
                 if size' = 0 then Inr 0
                 else if size' > constMaxFileSize
                   then Inl (ErrTooLarge ForEntropy size' constMaxFileSize)
                 else (case entropy_read_loop f 0 (replicate 256 0) of
                         Inl err \<Rightarrow> Inl err
                       | Inr byteCounts \<Rightarrow>
                           Inr (f_div fp
                             (math_Round (f_mul fp (entropy_sum fp byteCounts size') 100)) 100))))"

section \<open>fileutils: the four hash functions\<close>

text \<open>
  The digest algorithms are Go's \<^verbatim>\<open>crypto/md5\<close>, \<^verbatim>\<open>crypto/sha1\<close>,
  \<^verbatim>\<open>crypto/sha256\<close> and \<^verbatim>\<open>crypto/sha512\<close>, which are not part of this
  repository: they are parameters, each a function from the bytes written to the
  hash to the bytes \<^verbatim>\<open>Sum(nil)\<close> returns.
\<close>

record crypto =
  md5_Sum :: "byte list \<Rightarrow> byte list"
  sha1_Sum :: "byte list \<Rightarrow> byte list"
  sha256_Sum :: "byte list \<Rightarrow> byte list"
  sha512_Sum :: "byte list \<Rightarrow> byte list"

text \<open>The sizes of the standard digests, 16, 20, 32 and 64 bytes, for the input \<open>bs\<close>.\<close>

definition digest_sizes :: "crypto \<Rightarrow> byte list \<Rightarrow> bool" where
  "digest_sizes c bs =
     (length (md5_Sum c bs) = 16 \<and> length (sha1_Sum c bs) = 20 \<and>
      length (sha256_Sum c bs) = 32 \<and> length (sha512_Sum c bs) = 64)"

definition HashMD5 :: "crypto \<Rightarrow> filesystem \<Rightarrow> string \<Rightarrow> error + string" where
  "HashMD5 c fs path =
     (if path = [] then Inl (ErrNoPath ForHash)
      else case fs path of
        None \<Rightarrow> Inl (ErrOpen ForHash)
      | Some f \<Rightarrow>
          (case stat f of
             None \<Rightarrow> Inl ErrStat
           | Some fStat \<Rightarrow>
               if \<not> IsRegular (st_mode fStat) then Inl (ErrNotRegular ForHash)
               else if st_size fStat = 0 then Inr []
               else if st_size fStat > constMaxFileSize
                 then Inl (ErrTooLarge ForHash (st_size fStat) constMaxFileSize)
               else (case io_Copy f of
                       Inl err \<Rightarrow> Inl err
                     | Inr written \<Rightarrow> Inr (hex_EncodeToString (md5_Sum c written)))))"

definition HashSHA1 :: "crypto \<Rightarrow> filesystem \<Rightarrow> string \<Rightarrow> error + string" where
  "HashSHA1 c fs path =
     (if path = [] then Inl (ErrNoPath ForHash)
      else case fs path of
        None \<Rightarrow> Inl (ErrOpen ForHash)
      | Some f \<Rightarrow>
          (case stat f of
             None \<Rightarrow> Inl ErrStat
           | Some fStat \<Rightarrow>
               if \<not> IsRegular (st_mode fStat) then Inl (ErrNotRegular ForHash)
               else if st_size fStat = 0 then Inr []
               else if st_size fStat > constMaxFileSize
                 then Inl (ErrTooLarge ForHash (st_size fStat) constMaxFileSize)
               else (case io_Copy f of
                       Inl err \<Rightarrow> Inl err
                     | Inr written \<Rightarrow> Inr (hex_EncodeToString (sha1_Sum c written)))))"

definition HashSHA256 :: "crypto \<Rightarrow> filesystem \<Rightarrow> string \<Rightarrow> error + string" where
  "HashSHA256 c fs path =
     (if path = [] then Inl (ErrNoPath ForHash)
      else case fs path of
        None \<Rightarrow> Inl (ErrOpen ForHash)
      | Some f \<Rightarrow>
          (case stat f of
             None \<Rightarrow> Inl ErrStat
           | Some fStat \<Rightarrow>
               if \<not> IsRegular (st_mode fStat) then Inl (ErrNotRegular ForHash)
               else if st_size fStat = 0 then Inr []
               else if st_size fStat > constMaxFileSize
                 then Inl (ErrTooLarge ForHash (st_size fStat) constMaxFileSize)
               else (case io_Copy f of
                       Inl err \<Rightarrow> Inl err
                     | Inr written \<Rightarrow> Inr (hex_EncodeToString (sha256_Sum c written)))))"

definition HashSHA512 :: "crypto \<Rightarrow> filesystem \<Rightarrow> string \<Rightarrow> error + string" where
  "HashSHA512 c fs path =
     (if path = [] then Inl (ErrNoPath ForHash)
      else case fs path of
        None \<Rightarrow> Inl (ErrOpen ForHash)
      | Some f \<Rightarrow>
          (case stat f of
             None \<Rightarrow> Inl ErrStat
           | Some fStat \<Rightarrow>
               if \<not> IsRegular (st_mode fStat) then Inl (ErrNotRegular ForHash)
               else if st_size fStat = 0 then Inr []
               else if st_size fStat > constMaxFileSize
                 then Inl (ErrTooLarge ForHash (st_size fStat) constMaxFileSize)
               else (case io_Copy f of
                       Inl err \<Rightarrow> Inl err
                     | Inr written \<Rightarrow> Inr (hex_EncodeToString (sha512_Sum c written)))))"

section \<open>strconv, path and path/filepath\<close>

text \<open>\<^verbatim>\<open>strconv.Itoa\<close>: the decimal digits, most significant first; a minus sign first
  for a negative number.\<close>

definition digit_char :: "nat \<Rightarrow> char" where
  "digit_char d = ''0123456789'' ! d"

fun digits10 :: "nat \<Rightarrow> string" where
  "digits10 n = (if n < 10 then [digit_char n] else digits10 (n div 10) @ [digit_char (n mod 10)])"

declare digits10.simps [simp del]

definition Itoa :: "int \<Rightarrow> string" where
  "Itoa i = (if i < 0 then CHR ''-'' # digits10 (nat (- i)) else digits10 (nat i))"

text \<open>The elements of a path between its slashes, \<^verbatim>\<open>strings.Split(s, "/")\<close>.\<close>

fun split_slash :: "string \<Rightarrow> string list" where
  "split_slash [] = [[]]"
| "split_slash (c # cs) =
     (if c = CHR ''/'' then [] # split_slash cs
      else (case split_slash cs of
              [] \<Rightarrow> [[c]]
            | e # es \<Rightarrow> (c # e) # es))"

fun join_slash :: "string list \<Rightarrow> string" where
  "join_slash [] = []"
| "join_slash [e] = e"
| "join_slash (e # es) = e @ CHR ''/'' # join_slash es"

text \<open>
  \<^verbatim>\<open>path.Clean\<close>, element by element as its documentation states it: an empty
  element (a doubled slash) and a \<^verbatim>\<open>.\<close> element are dropped; a \<^verbatim>\<open>..\<close> element
  removes the element before it when there is one that is not \<^verbatim>\<open>..\<close>, is dropped
  at the root of a rooted path, and is kept otherwise; the empty result is
  \<^verbatim>\<open>.\<close>.
\<close>

fun clean_elems :: "bool \<Rightarrow> string list \<Rightarrow> string list \<Rightarrow> string list" where
  "clean_elems rooted [] out = out"
| "clean_elems rooted (e # es) out =
     (if e = [] \<or> e = ''.'' then clean_elems rooted es out
      else if e = ''..'' then
        (if out \<noteq> [] \<and> last out \<noteq> ''..'' then clean_elems rooted es (butlast out)
         else if \<not> rooted then clean_elems rooted es (out @ [''..''])
         else clean_elems rooted es out)
      else clean_elems rooted es (out @ [e]))"

definition path_Clean :: "string \<Rightarrow> string" where
  "path_Clean p =
     (if p = [] then ''.''
      else let rooted = (hd p = CHR ''/'');
               out = clean_elems rooted (split_slash p) [];
               s = (if rooted then ''/'' else []) @ join_slash out
           in if s = [] then ''.'' else s)"

text \<open>
  \<^verbatim>\<open>path.Join\<close>: the elements from the first non-empty one on, separated by
  slashes, then cleaned; the empty string when every element is empty.
\<close>

definition path_Join :: "string list \<Rightarrow> string" where
  "path_Join elem =
     (if concat elem = [] then []
      else path_Clean (join_slash (dropWhile (\<lambda>e. e = []) elem)))"

text \<open>\<^verbatim>\<open>filepath.Split\<close>: the directory up to and including the last slash, and
  the file name after it.\<close>

definition filepath_Split :: "string \<Rightarrow> string \<times> string" where
  "filepath_Split p =
     (rev (dropWhile (\<lambda>c. c \<noteq> CHR ''/'') (rev p)), rev (takeWhile (\<lambda>c. c \<noteq> CHR ''/'') (rev p)))"

section \<open>Package main\<close>

definition constProcDir :: string where
  "constProcDir = ''/proc''"

definition constMinPID :: int where
  "constMinPID = 1"

definition constMaxPID :: int where
  "constMaxPID = 4194304"

record hashes =
  md5 :: string
  sha1 :: string
  sha256 :: string
  sha512 :: string

record fileData =
  path :: string
  name :: string
  entropy :: real
  elf :: bool
  hash :: hashes

text \<open>Go's zero values, which a named result holds until it is assigned.\<close>

definition zero_hashes :: hashes where
  "zero_hashes = \<lparr>md5 = [], sha1 = [], sha256 = [], sha512 = []\<rparr>"

definition zero_fileData :: fileData where
  "zero_fileData = \<lparr>path = [], name = [], entropy = 0, elf = False, hash = zero_hashes\<rparr>"

text \<open>
  A call either returns to its caller or ends the program in \<^verbatim>\<open>log.Fatalf\<close>
  (the message is printed and the process exits with status 1). The stage says
  which of the five messages of \<^verbatim>\<open>checkFilePath\<close> it is.
\<close>

datatype stage = CalcEntropy | CalcMD5 | CalcSHA1 | CalcSHA256 | CalcSHA512

datatype 'a run = Returns 'a | LogFatal stage error

definition run_bind :: "'a run \<Rightarrow> ('a \<Rightarrow> 'b run) \<Rightarrow> 'b run" where
  "run_bind r k = (case r of Returns x \<Rightarrow> k x | LogFatal st err \<Rightarrow> LogFatal st err)"

text \<open>The two entropy blocks and the hash block of \<^verbatim>\<open>checkFilePath\<close>, in order.\<close>

definition entropy_block ::
  "float64_arith \<Rightarrow> filesystem \<Rightarrow> string \<Rightarrow> bool \<Rightarrow> fileData \<Rightarrow> fileData run" where
  "entropy_block fp fs filePath cond fileInfo =
     (if cond then
        (case Entropy fp fs filePath of
           Inl err \<Rightarrow> LogFatal CalcEntropy err
         | Inr entropy' \<Rightarrow> Returns (fileInfo\<lparr>entropy := entropy'\<rparr>))
      else Returns fileInfo)"

definition hash_block :: "crypto \<Rightarrow> filesystem \<Rightarrow> string \<Rightarrow> real \<Rightarrow> fileData \<Rightarrow> fileData run" where
  "hash_block c fs filePath entropyMaxVal fileInfo =
     (if entropy fileInfo \<ge> entropyMaxVal then
        (case HashMD5 c fs filePath of
           Inl err \<Rightarrow> LogFatal CalcMD5 err
         | Inr md5' \<Rightarrow>
        (case HashSHA1 c fs filePath of
           Inl err \<Rightarrow> LogFatal CalcSHA1 err
         | Inr sha1' \<Rightarrow>
        (case HashSHA256 c fs filePath of
           Inl err \<Rightarrow> LogFatal CalcSHA256 err
         | Inr sha256' \<Rightarrow>
        (case HashSHA512 c fs filePath of
           Inl err \<Rightarrow> LogFatal CalcSHA512 err
         | Inr sha512' \<Rightarrow>
             Returns (fileInfo\<lparr>hash :=
               \<lparr>md5 = md5', sha1 = sha1', sha256 = sha256', sha512 = sha512'\<rparr>\<rparr>)))))
      else Returns fileInfo)"

definition checkFilePath ::
  "float64_arith \<Rightarrow> crypto \<Rightarrow> filesystem \<Rightarrow> string \<Rightarrow> bool \<Rightarrow> real
     \<Rightarrow> (fileData \<times> error option) run" where
  "checkFilePath fp c fs filePath elfOnly entropyMaxVal =
     (case IsElfType fs filePath of
        Inl err \<Rightarrow> Returns (zero_fileData, Some err)
      | Inr isElfType \<Rightarrow>
          (let fileName = snd (filepath_Split filePath);
               fileInfo0 = \<lparr>path = filePath, name = fileName, entropy = - 1,
                            elf = isElfType, hash = zero_hashes\<rparr>
           in run_bind (entropy_block fp fs filePath (elfOnly \<and> isElfType) fileInfo0) (\<lambda>fileInfo1.
              run_bind (entropy_block fp fs filePath (\<not> elfOnly) fileInfo1) (\<lambda>fileInfo2.
              run_bind (hash_block c fs filePath entropyMaxVal fileInfo2) (\<lambda>fileInfo3.
              Returns (fileInfo3, None))))))"

text \<open>The loop of \<^verbatim>\<open>genPIDExePaths\<close>, from \<open>pid\<close> on, appending to \<open>pidPaths\<close>.\<close>

function genPIDExePaths_loop :: "int \<Rightarrow> string list \<Rightarrow> string list" where
  "genPIDExePaths_loop pid pidPaths =
     (if pid < constMaxPID
      then genPIDExePaths_loop (pid + 1)
             (pidPaths @ [path_Join [constProcDir, Itoa pid, ''/exe'']])
      else pidPaths)"
  by pat_completeness auto
termination
  by (relation "measure (\<lambda>(pid, pidPaths). nat (constMaxPID - pid))") auto

declare genPIDExePaths_loop.simps [simp del]

definition genPIDExePaths :: "string list \<times> error option" where
  "genPIDExePaths = (genPIDExePaths_loop constMinPID [], None)"

text \<open>
  The process scan of \<^verbatim>\<open>main\<close> (the branch \<^verbatim>\<open>if procOnly\<close>). What the program
  shows is the list of the records handed to \<^verbatim>\<open>printResults\<close>, in order, and
  how it ends: \<^verbatim>\<open>os.Exit(0)\<close> after the loop, or a fatal log message.
\<close>

datatype ending = Exit0 | FatalPIDList error | FatalCheck stage error | FatalFile error

fun proc_loop ::
  "float64_arith \<Rightarrow> crypto \<Rightarrow> filesystem \<Rightarrow> real \<Rightarrow> string list \<Rightarrow> fileData list
     \<Rightarrow> fileData list \<times> ending" where
  "proc_loop fp c fs entropyMaxVal [] printed = (printed, Exit0)"
| "proc_loop fp c fs entropyMaxVal (pidPath # pidPaths) printed =
     (case checkFilePath fp c fs pidPath True entropyMaxVal of
        LogFatal st err \<Rightarrow> (printed, FatalCheck st err)
      | Returns (fileInfo, Some err) \<Rightarrow> proc_loop fp c fs entropyMaxVal pidPaths printed
      | Returns (fileInfo, None) \<Rightarrow>
          if entropy fileInfo \<ge> entropyMaxVal
          then proc_loop fp c fs entropyMaxVal pidPaths (printed @ [fileInfo])
          else proc_loop fp c fs entropyMaxVal pidPaths printed)"


text \<open>The single-file scan of \<^verbatim>\<open>main\<close> (the branch \<^verbatim>\<open>if filePath != ""\<close>).\<close>

definition main_file ::
  "float64_arith \<Rightarrow> crypto \<Rightarrow> filesystem \<Rightarrow> string \<Rightarrow> bool \<Rightarrow> real
     \<Rightarrow> fileData list \<times> ending" where
  "main_file fp c fs filePath elfOnly entropyMaxVal =
     (case checkFilePath fp c fs filePath elfOnly entropyMaxVal of
        LogFatal st err \<Rightarrow> ([], FatalCheck st err)
      | Returns (fileInfo, Some err) \<Rightarrow> ([], FatalFile err)
      | Returns (fileInfo, None) \<Rightarrow>
          (if entropy fileInfo \<ge> entropyMaxVal then [fileInfo] else [], Exit0))"

section \<open>Auxiliary definitions for the proofs\<close>

text \<open>The body the four hash functions share, with the digest as its parameter.\<close>

definition hash_with :: "(byte list \<Rightarrow> byte list) \<Rightarrow> filesystem \<Rightarrow> string \<Rightarrow> error + string" where
  "hash_with digest fs p =
     (if p = [] then Inl (ErrNoPath ForHash)
      else case fs p of
        None \<Rightarrow> Inl (ErrOpen ForHash)
      | Some f \<Rightarrow>
          (case stat f of
             None \<Rightarrow> Inl ErrStat
           | Some fStat \<Rightarrow>
               if \<not> IsRegular (st_mode fStat) then Inl (ErrNotRegular ForHash)
               else if st_size fStat = 0 then Inr []
               else if st_size fStat > constMaxFileSize
                 then Inl (ErrTooLarge ForHash (st_size fStat) constMaxFileSize)
               else (case io_Copy f of
                       Inl err \<Rightarrow> Inl err
                     | Inr written \<Rightarrow> Inr (hex_EncodeToString (digest written)))))"

text \<open>
  The specification's entropy of a byte string: over the byte values that occur,
  with \<open>p\<close> the share of the value among the bytes, the sum of \<open>- p * log 2 p\<close>;
  and rounding to two decimal places, half away from zero.
\<close>

definition prob :: "byte list \<Rightarrow> byte \<Rightarrow> real" where
  "prob bs b = real (count_list bs b) / real (length bs)"

definition shannon :: "byte list \<Rightarrow> real" where
  "shannon bs = (\<Sum>b \<in> {b. 0 < prob bs b}. - prob bs b * log 2 (prob bs b))"

text \<open>One symbol's share of the sum, as the loop over the symbols adds it when the
  arithmetic is exact.\<close>

definition entropy_term :: "real \<Rightarrow> real" where
  "entropy_term px = (if px > 0 then - px * log 2 px else 0)"

definition round2 :: "real \<Rightarrow> real" where
  "round2 x = (if x < 0 then - of_int \<lfloor>- (x * 100) + 1 / 2\<rfloor> else of_int \<lfloor>x * 100 + 1 / 2\<rfloor>) / 100"


text \<open>
  The arithmetic without rounding error. It is not the program's: it says what the
  formula that the program evaluates is worth, and it serves where a theorem is
  instantiated at a run in which \<^verbatim>\<open>float64\<close> does not round either.
\<close>

definition exact_arith :: float64_arith where
  "exact_arith = \<lparr>f_div = (\<lambda>x y. x / y), f_mul = (\<lambda>x y. x * y), f_add = (\<lambda>x y. x + y),
                   f_log2 = (\<lambda>x. log 2 x)\<rparr>"

text \<open>
  What is relied on of \<^verbatim>\<open>float64\<close> where a theorem is about the program's own
  arithmetic: an integer below \<open>2 ^ 53\<close> in magnitude is a \<^verbatim>\<open>float64\<close>; a division,
  multiplication or addition whose exact result is such an integer returns it
  (IEEE 754 rounds to the nearest value); and \<^verbatim>\<open>math.Log2\<close> is exact at 1 and at 2
  (its source returns the exponent for a power of two).
\<close>

definition small_int :: "real \<Rightarrow> bool" where
  "small_int x = (\<exists>m :: int. \<bar>m\<bar> < 2 ^ 53 \<and> x = real_of_int m)"

definition exact_on_integers :: "float64_arith \<Rightarrow> bool" where
  "exact_on_integers fp =
     ((\<forall>x y. y \<noteq> 0 \<and> small_int (x / y) \<longrightarrow> f_div fp x y = x / y) \<and>
      (\<forall>x y. small_int (x * y) \<longrightarrow> f_mul fp x y = x * y) \<and>
      (\<forall>x y. small_int (x + y) \<longrightarrow> f_add fp x y = x + y) \<and>
      f_log2 fp 1 = 0 \<and> f_log2 fp 2 = 1)"

text \<open>
  What is relied on of \<^verbatim>\<open>float64\<close> where a theorem bounds the program's own
  result. Division, multiplication and addition return the exact result rounded
  (IEEE 754), by a rounding \<open>rnd\<close> that is monotone, leaves an integer below \<open>2 ^ 53\<close>
  in magnitude as it is, and moves a number of magnitude at most 1024 by at most
  \<open>2 ^ -40\<close> (rounding to the nearest \<^verbatim>\<open>float64\<close> moves it by at most \<open>2 ^ -44\<close>);
  \<^verbatim>\<open>math.Log2\<close> is exact at 1 and at 2 and, on the interval from 0 to 1, is not
  positive and within \<open>2 ^ -40\<close> of the logarithm. These are hypotheses on the
  parameter, named where a theorem uses them; the exact arithmetic meets them with
  the identity as rounding.
\<close>

definition float64_eps :: real where
  "float64_eps = 1 / 2 ^ 40"

definition float64_laws :: "float64_arith \<Rightarrow> (real \<Rightarrow> real) \<Rightarrow> bool" where
  "float64_laws fp rnd =
     ((\<forall>x y. x \<le> y \<longrightarrow> rnd x \<le> rnd y) \<and>
      (\<forall>m :: int. \<bar>m\<bar> < 2 ^ 53 \<longrightarrow> rnd (real_of_int m) = real_of_int m) \<and>
      (\<forall>x. \<bar>x\<bar> \<le> 1024 \<longrightarrow> \<bar>rnd x - x\<bar> \<le> float64_eps) \<and>
      (\<forall>x y. y \<noteq> 0 \<longrightarrow> f_div fp x y = rnd (x / y)) \<and>
      (\<forall>x y. f_mul fp x y = rnd (x * y)) \<and>
      (\<forall>x y. f_add fp x y = rnd (x + y)) \<and>
      f_log2 fp 1 = 0 \<and> f_log2 fp 2 = 1 \<and>
      (\<forall>x. 0 < x \<and> x \<le> 1 \<longrightarrow> f_log2 fp x \<le> 0 \<and> \<bar>f_log2 fp x - log 2 x\<bar> \<le> float64_eps))"

text \<open>A file whose \<^verbatim>\<open>Stat\<close> reports a regular file of the size of its content and
  whose reads do not fail.\<close>

definition regular_file :: "byte list \<Rightarrow> os_file" where
  "regular_file bs =
     \<lparr>stat = Some \<lparr>st_mode = Regular, st_size = int (length bs)\<rparr>, content = bs, read_fault = None\<rparr>"

text \<open>
  Concrete inputs at which the theorems below are instantiated: among them a file
  that has grown to two bytes since \<^verbatim>\<open>Stat\<close> reported one, and a symbolic link
  whose target is missing, which does not open.
\<close>

definition grown_file :: os_file where
  "grown_file =
     \<lparr>stat = Some \<lparr>st_mode = Regular, st_size = 1\<rparr>, content = [0x00, 0x00], read_fault = None\<rparr>"

definition char_device :: os_file where
  "char_device = \<lparr>stat = Some \<lparr>st_mode = CharDevice, st_size = 0\<rparr>, content = [], read_fault = None\<rparr>"

definition demo_fs :: filesystem where
  "demo_fs =
     [''/proc/1/exe'' \<mapsto> regular_file [0x7F, 0x45, 0x4C, 0x46, 0x02, 0x01, 0x01, 0x00],
      ''/tmp/abc'' \<mapsto> regular_file [0x61, 0x62, 0x63],
      ''/tmp/aaaa'' \<mapsto> regular_file (replicate 4 0x61),
      ''/tmp/ab'' \<mapsto> regular_file [0x61, 0x62],
      ''/tmp/empty'' \<mapsto> regular_file [],
      ''/tmp/2GiB'' \<mapsto> regular_file (replicate 2147483648 0),
      ''/tmp/2GiB+1'' \<mapsto> regular_file (replicate 2147483649 0),
      ''/tmp/grown'' \<mapsto> grown_file,
      ''/dev/zero'' \<mapsto> char_device]
     (''/tmp/dangling-link'' := None)"

text \<open>
  The digests the four algorithms give the empty input, and a stand-in for the
  digest library that answers every input with them: it has the standard digest
  sizes, and it agrees with the real algorithms on the empty input.
\<close>

definition md5_of_empty :: "byte list" where
  "md5_of_empty =
     [0xD4, 0x1D, 0x8C, 0xD9, 0x8F, 0x00, 0xB2, 0x04,
      0xE9, 0x80, 0x09, 0x98, 0xEC, 0xF8, 0x42, 0x7E]"

definition sha1_of_empty :: "byte list" where
  "sha1_of_empty =
     [0xDA, 0x39, 0xA3, 0xEE, 0x5E, 0x6B, 0x4B, 0x0D,
      0x32, 0x55, 0xBF, 0xEF, 0x95, 0x60, 0x18, 0x90,
      0xAF, 0xD8, 0x07, 0x09]"

definition sha256_of_empty :: "byte list" where
  "sha256_of_empty =
     [0xE3, 0xB0, 0xC4, 0x42, 0x98, 0xFC, 0x1C, 0x14,
      0x9A, 0xFB, 0xF4, 0xC8, 0x99, 0x6F, 0xB9, 0x24,
      0x27, 0xAE, 0x41, 0xE4, 0x64, 0x9B, 0x93, 0x4C,
      0xA4, 0x95, 0x99, 0x1B, 0x78, 0x52, 0xB8, 0x55]"

definition sha512_of_empty :: "byte list" where
  "sha512_of_empty =
     [0xCF, 0x83, 0xE1, 0x35, 0x7E, 0xEF, 0xB8, 0xBD,
      0xF1, 0x54, 0x28, 0x50, 0xD6, 0x6D, 0x80, 0x07,
      0xD6, 0x20, 0xE4, 0x05, 0x0B, 0x57, 0x15, 0xDC,
      0x83, 0xF4, 0xA9, 0x21, 0xD3, 0x6C, 0xE9, 0xCE,
      0x47, 0xD0, 0xD1, 0x3C, 0x5D, 0x85, 0xF2, 0xB0,
      0xFF, 0x83, 0x18, 0xD2, 0x87, 0x7E, 0xEC, 0x2F,
      0x63, 0xB9, 0x31, 0xBD, 0x47, 0x41, 0x7A, 0x81,
      0xA5, 0x38, 0x32, 0x7A, 0xF9, 0x27, 0xDA, 0x3E]"

definition demo_crypto :: crypto where
  "demo_crypto =
     \<lparr>md5_Sum = (\<lambda>bs. md5_of_empty), sha1_Sum = (\<lambda>bs. sha1_of_empty),
      sha256_Sum = (\<lambda>bs. sha256_of_empty), sha512_Sum = (\<lambda>bs. sha512_of_empty)\<rparr>"

section \<open>Facts about the environment, the codecs and the example inputs\<close>

lemma elf_magic_decoded:
  "hex_DecodeString constMagicNumElf = Inr [0x7F, 0x45, 0x4C, 0x46]"
  by (simp add: constMagicNumElf_def fromHexChar_def)

lemma length4: "length [a, b, c, d] = 4"
  by simp

lemma take4_magic_length:
  assumes "take 4 xs = [a, b, c, d]"
  shows "4 \<le> length xs"
proof -
  have "length (take 4 xs) = 4" using assms by simp
  then show ?thesis by simp
qed

lemma IsElfType_regular_file:
  assumes "p \<noteq> []" "fs p = Some f" "stat f = Some st" "st_mode st = Regular" "4 \<le> st_size st"
  shows "IsElfType fs p =
    (case binary_Read f 4 of Inl err \<Rightarrow> Inl err
     | Inr hexData \<Rightarrow> Inr (hexData = [0x7F, 0x45, 0x4C, 0x46]))"
proof (cases "binary_Read f 4")
  case (Inl err)
  with assms show ?thesis
    by (simp add: IsElfType_def IsRegular_def constMagicNumRead_def)
next
  case (Inr hexData)
  then have "length hexData = 4"
    by (auto simp: binary_Read_def split: if_splits)
  then have "take (length [0x7F, 0x45, 0x4C, 0x46 :: byte]) hexData = hexData"
    by (simp only: length4 take_all order_refl)
  with assms Inr show ?thesis
    by (simp only: IsElfType_def elf_magic_decoded IsRegular_def constMagicNumRead_def length4)
       (simp split: if_splits)
qed

lemma demo_fs_simps:
  "demo_fs ''/proc/1/exe'' = Some (regular_file [0x7F, 0x45, 0x4C, 0x46, 0x02, 0x01, 0x01, 0x00])"
  "demo_fs ''/tmp/abc'' = Some (regular_file [0x61, 0x62, 0x63])"
  "demo_fs ''/tmp/aaaa'' = Some (regular_file (replicate 4 0x61))"
  "demo_fs ''/tmp/ab'' = Some (regular_file [0x61, 0x62])"
  "demo_fs ''/tmp/empty'' = Some (regular_file [])"
  "demo_fs ''/tmp/2GiB'' = Some (regular_file (replicate 2147483648 0))"
  "demo_fs ''/tmp/2GiB+1'' = Some (regular_file (replicate 2147483649 0))"
  "demo_fs ''/dev/zero'' = Some char_device"
  "demo_fs ''/tmp/grown'' = Some grown_file"
  "demo_fs ''/tmp/dangling-link'' = None"
  "demo_fs ''/proc/2/exe'' = None"
  "demo_fs ''/proc/3/exe'' = None"
  by (simp_all add: demo_fs_def)

lemma regular_file_simps:
  "stat (regular_file bs) = Some \<lparr>st_mode = Regular, st_size = int (length bs)\<rparr>"
  "content (regular_file bs) = bs"
  "read_fault (regular_file bs) = None"
  "readable (regular_file bs) = bs"
  by (simp_all add: regular_file_def readable_def)

lemma HashMD5_hash_with: "HashMD5 c = hash_with (md5_Sum c)"
  by (intro ext) (simp add: HashMD5_def hash_with_def)

lemma HashSHA1_hash_with: "HashSHA1 c = hash_with (sha1_Sum c)"
  by (intro ext) (simp add: HashSHA1_def hash_with_def)

lemma HashSHA256_hash_with: "HashSHA256 c = hash_with (sha256_Sum c)"
  by (intro ext) (simp add: HashSHA256_def hash_with_def)

lemma HashSHA512_hash_with: "HashSHA512 c = hash_with (sha512_Sum c)"
  by (intro ext) (simp add: HashSHA512_def hash_with_def)

lemmas Hash_hash_with =
  HashMD5_hash_with HashSHA1_hash_with HashSHA256_hash_with HashSHA512_hash_with

lemma entropy_read_loop_error:
  "entropy_read_loop f off byteCounts = Inl e \<Longrightarrow> e = ErrRead ForEntropy"
proof (induction f off byteCounts rule: entropy_read_loop.induct)
  case (1 f off byteCounts)
  show ?case
  proof (cases "file_Read f off constMaxEntropyChunk")
    case (ReadBytes dataBytes)
    with "1.prems" have "entropy_read_loop f (off + length dataBytes) (count_chunk dataBytes byteCounts) = Inl e"
      by (subst (asm) entropy_read_loop.simps) simp
    with ReadBytes show ?thesis by (rule "1.IH")
  next
    case ReadEOF
    with "1.prems" show ?thesis by (subst (asm) entropy_read_loop.simps) simp
  next
    case ReadFail
    with "1.prems" show ?thesis by (subst (asm) entropy_read_loop.simps) simp
  qed
qed

lemma Entropy_opened:
  assumes "p \<noteq> []" "fs p = Some f" "stat f = Some st"
  shows "Entropy fp fs p =
    (if st_mode st \<noteq> Regular then Inl (ErrNotRegular ForEntropy)
     else if st_size st = 0 then Inr 0
     else if st_size st > 2147483648 then Inl (ErrTooLarge ForEntropy (st_size st) 2147483648)
     else (case entropy_read_loop f 0 (replicate 256 0) of
             Inl err \<Rightarrow> Inl err
           | Inr byteCounts \<Rightarrow>
               Inr (f_div fp (math_Round (f_mul fp (entropy_sum fp byteCounts (st_size st)) 100)) 100)))"
  using assms by (simp add: Entropy_def IsRegular_def constMaxFileSize_def Let_def)

lemma hash_with_opened:
  assumes "p \<noteq> []" "fs p = Some f" "stat f = Some st"
  shows "hash_with d fs p =
    (if st_mode st \<noteq> Regular then Inl (ErrNotRegular ForHash)
     else if st_size st = 0 then Inr []
     else if st_size st > 2147483648 then Inl (ErrTooLarge ForHash (st_size st) 2147483648)
     else if read_fault f = None then Inr (hex_EncodeToString (d (content f)))
     else Inl (ErrRead ForHash))"
  using assms by (simp add: hash_with_def IsRegular_def constMaxFileSize_def io_Copy_def)

lemma Entropy_too_large_iff:
  assumes "p \<noteq> []" "fs p = Some f" "stat f = Some st" "st_mode st = Regular"
  shows "(\<exists>n m. Entropy fp fs p = Inl (ErrTooLarge ForEntropy n m)) = (st_size st > 2147483648)"
  using assms
  by (auto simp: Entropy_opened [of p fs f st] split: sum.splits dest: entropy_read_loop_error)

lemma hash_with_too_large_iff:
  assumes "p \<noteq> []" "fs p = Some f" "stat f = Some st" "st_mode st = Regular"
  shows "(\<exists>n m. hash_with d fs p = Inl (ErrTooLarge ForHash n m)) = (st_size st > 2147483648)"
  using assms by (auto simp: hash_with_opened [of p fs f st])

lemmas checkFilePath_defs =
  checkFilePath_def entropy_block_def hash_block_def run_bind_def Let_def

lemma hex_EncodeToString_length: "length (hex_EncodeToString bs) = 2 * length bs"
  by (induction bs) (simp_all add: hex_EncodeToString_def)

lemma hex_EncodeToString_Nil_iff: "(hex_EncodeToString bs = []) = (bs = [])"
  using hex_EncodeToString_length [of bs] by (cases bs) auto

lemma nibble_bounds:
  fixes v :: byte
  shows "unat (drop_bit 4 v) < 16" and "unat (v AND 0x0f) < 16"
proof -
  have "unat v < 256" using unsigned_less [of v, where 'a = nat] by simp
  then show "unat (drop_bit 4 v) < 16"
    by (simp add: drop_bit_eq_div unat_div)
  have "v AND 0x0f \<le> 0x0f" by (rule word_and_le1)
  then have "unat (v AND 0x0f) \<le> unat (0x0f :: byte)"
    by (simp only: word_le_nat_alt)
  then show "unat (v AND 0x0f) < 16" by simp
qed

lemma hextable_nth:
  assumes "k < 16"
  shows "hextable ! k \<in> set ''0123456789abcdef''"
proof -
  have "length hextable = 16" by (simp add: hextable_def)
  with assms have "hextable ! k \<in> set hextable" by (simp only: nth_mem)
  then show ?thesis by (simp only: hextable_def)
qed

lemma hex_EncodeToString_Cons:
  "hex_EncodeToString (v # bs) =
     hextable ! unat (drop_bit 4 v) # hextable ! unat (v AND 0x0f) # hex_EncodeToString bs"
  by (simp add: hex_EncodeToString_def)

lemma hex_EncodeToString_lowercase:
  "set (hex_EncodeToString bs) \<subseteq> set ''0123456789abcdef''"
proof (induction bs)
  case Nil
  show ?case by (simp add: hex_EncodeToString_def)
next
  case (Cons v bs)
  have "set (hex_EncodeToString (v # bs)) =
      insert (hextable ! unat (drop_bit 4 v)) (insert (hextable ! unat (v AND 0x0f)) (set (hex_EncodeToString bs)))"
    by (simp only: hex_EncodeToString_Cons list.set)
  moreover note Cons.IH hextable_nth [OF nibble_bounds(1) [of v]] hextable_nth [OF nibble_bounds(2) [of v]]
  ultimately show ?case by (simp only: insert_subset simp_thms)
qed

section \<open>The entropy\<close>

subsection \<open>The histogram\<close>

lemma count_chunk_Nil: "count_chunk [] c = c"
  by (simp add: count_chunk_def)

lemma count_chunk_Cons:
  "count_chunk (b # bs) c = count_chunk bs (c[unat b := c ! unat b + 1])"
  by (simp add: count_chunk_def)

lemma count_chunk_append: "count_chunk (xs @ ys) c = count_chunk ys (count_chunk xs c)"
  by (simp add: count_chunk_def)



lemma byte_eq_of_nat_iff:
  assumes "i < 256"
  shows "(unat (b :: byte) = i) = (b = of_nat i)"
proof
  assume "unat b = i"
  then show "b = of_nat i" by (metis of_nat_unat ucast_id)
next
  assume "b = of_nat i"
  with assms show "unat b = i" by (simp add: unat_of_nat)
qed

lemma count_chunk_nth:
  assumes "length c = 256" "i < 256"
  shows "count_chunk bs c ! i = c ! i + int (count_list bs (of_nat i))"
  using assms(1)
proof (induction bs arbitrary: c)
  case Nil
  show ?case by (simp add: count_chunk_Nil)
next
  case (Cons b bs)
  have len: "length (c[unat b := c ! unat b + 1]) = 256"
    using Cons.prems by simp
  have step: "count_chunk (b # bs) c ! i
      = (c[unat b := c ! unat b + 1]) ! i + int (count_list bs (of_nat i))"
    by (simp only: count_chunk_Cons Cons.IH [OF len])
  show ?case
  proof (cases "unat b = i")
    case True
    then have "b = of_nat i" using byte_eq_of_nat_iff [OF assms(2)] by simp
    with True Cons.prems assms(2) show ?thesis
      unfolding step by simp
  next
    case False
    then have "b \<noteq> of_nat i" using byte_eq_of_nat_iff [OF assms(2)] by simp
    with False show ?thesis
      unfolding step by simp
  qed
qed

lemma histogram_nth:
  assumes "i < 256"
  shows "count_chunk bs (replicate 256 0) ! i = int (count_list bs (of_nat i))"
  using count_chunk_nth [of "replicate 256 0" i bs] assms by simp

subsection \<open>The read loop\<close>

lemma entropy_read_loop_no_fault:
  assumes "read_fault f = None"
  shows "entropy_read_loop f off c = Inr (count_chunk (drop off (content f)) c)"
  using assms
proof (induction f off c rule: entropy_read_loop.induct)
  case (1 f off c)
  have rd: "readable f = content f"
    using "1.prems" by (simp add: readable_def)
  show ?case
  proof (cases "off < length (content f)")
    case False
    then have "file_Read f off constMaxEntropyChunk = ReadEOF"
      using "1.prems" by (simp add: file_Read_def rd)
    with False show ?thesis
      by (subst entropy_read_loop.simps) (simp add: count_chunk_Nil)
  next
    case True
    define chunk where "chunk = take constMaxEntropyChunk (drop off (content f))"
    have r: "file_Read f off constMaxEntropyChunk = ReadBytes chunk"
      using True by (simp add: file_Read_def rd chunk_def)
    have split: "drop off (content f) = chunk @ drop (off + length chunk) (content f)"
    proof -
      have "drop (length chunk) (drop off (content f))
          = drop constMaxEntropyChunk (drop off (content f))"
        by (cases "constMaxEntropyChunk \<le> length (drop off (content f))")
           (simp_all add: chunk_def min_def)
      then have "chunk @ drop (length chunk) (drop off (content f)) = drop off (content f)"
        by (simp only: chunk_def append_take_drop_id)
      moreover have "drop (length chunk) (drop off (content f))
          = drop (off + length chunk) (content f)"
        by (simp only: drop_drop add.commute)
      ultimately show ?thesis by simp
    qed
    have "entropy_read_loop f off c
        = entropy_read_loop f (off + length chunk) (count_chunk chunk c)"
      by (subst entropy_read_loop.simps) (simp add: r)
    also have "\<dots> = Inr (count_chunk (drop (off + length chunk) (content f)) (count_chunk chunk c))"
      using "1.IH" [OF r "1.prems"] .
    also have "\<dots> = Inr (count_chunk (drop off (content f)) c)"
      by (simp only: count_chunk_append [symmetric] split [symmetric])
    finally show ?thesis .
  qed
qed

subsection \<open>The sum over the 256 symbols\<close>

lemma exact_arith_simps:
  "f_div exact_arith x y = x / y" "f_mul exact_arith x y = x * y"
  "f_add exact_arith x y = x + y" "f_log2 exact_arith x = log 2 x"
  by (simp_all add: exact_arith_def)

lemma fold_entropy_terms:
  "fold (\<lambda>i entropy.
           let px = real_of_int (c ! i) / real_of_int n
           in if px > 0 then entropy + (- px * log 2 px) else entropy) xs a
   = a + (\<Sum>i\<leftarrow>xs. entropy_term (real_of_int (c ! i) / real_of_int n))"
  by (induction xs arbitrary: a) (simp_all add: entropy_term_def Let_def)

lemma entropy_sum_eq:
  "entropy_sum exact_arith c n
     = (\<Sum>i = 0..<256. entropy_term (real_of_int (c ! i) / real_of_int n))"
  unfolding entropy_sum_def exact_arith_simps fold_entropy_terms
  by (simp only: interv_sum_list_conv_sum_set_nat set_upt add_0)

lemma sum_over_bytes:
  "(\<Sum>i = 0..<256. g (of_nat i :: byte)) = (\<Sum>b\<in>UNIV. g b)"
proof -
  have "(\<Sum>b\<in>(UNIV :: byte set). g b) = (\<Sum>b\<in>of_nat ` {0..<256}. g b)"
    using UNIV_word_eq_word_of_nat [where 'a = 8] by simp
  also have "\<dots> = (\<Sum>i = 0..<256. g (of_nat i))"
    using inj_on_word_of_nat [where 'a = 8] by (simp add: sum.reindex)
  finally show ?thesis by simp
qed

lemma entropy_sum_histogram:
  "entropy_sum exact_arith (count_chunk bs (replicate 256 0)) (int (length bs))
   = (\<Sum>b\<in>UNIV. entropy_term (prob bs b))"
proof -
  have "entropy_sum exact_arith (count_chunk bs (replicate 256 0)) (int (length bs))
      = (\<Sum>i = 0..<256. entropy_term (prob bs (of_nat i)))"
    unfolding entropy_sum_eq
    by (rule sum.cong) (simp_all add: histogram_nth prob_def)
  then show ?thesis
    using sum_over_bytes [of "\<lambda>b. entropy_term (prob bs b)"] by simp
qed

lemma shannon_alt: "shannon bs = (\<Sum>b\<in>UNIV. entropy_term (prob bs b))"
proof -
  have "(\<Sum>b\<in>UNIV. entropy_term (prob bs b))
      = (\<Sum>b\<in>{b \<in> UNIV. 0 < prob bs b}. - prob bs b * log 2 (prob bs b))"
    unfolding entropy_term_def by (rule sum.inter_filter [symmetric]) simp
  then show ?thesis by (simp add: shannon_def)
qed

subsection \<open>Bounds\<close>







lemma shannon_Nil: "shannon [] = 0"
  by (simp add: shannon_def prob_def)

lemma count_list_replicate_eq:
  "count_list (replicate n b) x = (if x = b then n else 0)"
  by (induction n) auto

lemma shannon_replicate: "shannon (replicate n b) = 0"
proof (cases "n = 0")
  case True
  then show ?thesis by (simp add: shannon_Nil)
next
  case False
  have p: "prob (replicate n b) x = (if x = b then 1 else 0)" for x
    using False by (simp add: prob_def count_list_replicate_eq)
  have "shannon (replicate n b) = (\<Sum>x\<in>UNIV. entropy_term (if x = b then 1 else 0))"
    by (simp only: shannon_alt p)
  also have "\<dots> = 0"
    by (rule sum.neutral) (simp add: entropy_term_def)
  finally show ?thesis .
qed

subsection \<open>Rounding\<close>

lemma math_Round_round2: "math_Round (x * 100) / 100 = round2 x"
  by (simp add: math_Round_def round2_def)

lemma round2_zero: "round2 0 = 0"
  by (simp add: round2_def)




lemma Entropy_regular_content:
  assumes "p \<noteq> []" "fs p = Some f" "stat f = Some st" "st_mode st = Regular"
    "st_size st = int (length (content f))" "st_size st \<le> 2147483648" "read_fault f = None"
  shows "Entropy exact_arith fs p = Inr (round2 (shannon (content f)))"
proof (cases "content f = []")
  case True
  with assms show ?thesis
    by (simp add: Entropy_opened [of p fs f st] shannon_Nil round2_zero)
next
  case False
  have loop: "entropy_read_loop f 0 (replicate 256 0)
      = Inr (count_chunk (content f) (replicate 256 0))"
    using entropy_read_loop_no_fault [OF assms(7), of 0] by simp
  have "entropy_sum exact_arith (count_chunk (content f) (replicate 256 0)) (st_size st)
      = shannon (content f)"
    by (simp only: assms(5) entropy_sum_histogram shannon_alt)
  with assms False loop show ?thesis
    by (simp add: Entropy_opened [of p fs f st] exact_arith_simps math_Round_round2)
qed

subsection \<open>Runs in which one byte value occurs\<close>










lemma shannon_ab: "shannon [0x61, 0x62] = 1"
proof -
  have p: "prob [0x61, 0x62] x = (if x = 0x61 \<or> x = 0x62 then 1 / 2 else 0)" for x :: byte
    by (simp add: prob_def)
  have s: "{b. 0 < prob [0x61, 0x62] b} = {0x61, 0x62}"
    by (auto simp: p)
  show ?thesis
    unfolding shannon_def s by (simp add: p log_divide)
qed

lemma Entropy_regular_file:
  assumes "p \<noteq> []" "fs p = Some (regular_file bs)" "length bs \<le> 2147483648"
  shows "Entropy exact_arith fs p = Inr (round2 (shannon bs))"
  using Entropy_regular_content [of p fs "regular_file bs"
      "\<lparr>st_mode = Regular, st_size = int (length bs)\<rparr>"] assms
  by (simp add: regular_file_simps)

lemma Entropy_demo:
  "Entropy exact_arith demo_fs ''/tmp/empty'' = Inr 0"
  "Entropy exact_arith demo_fs ''/tmp/aaaa'' = Inr 0"
  "Entropy exact_arith demo_fs ''/tmp/ab'' = Inr 1"
proof -
  show "Entropy exact_arith demo_fs ''/tmp/empty'' = Inr 0"
    using Entropy_regular_file [of "''/tmp/empty''" demo_fs "[]"]
    by (simp add: demo_fs_simps shannon_Nil round2_zero)
  show "Entropy exact_arith demo_fs ''/tmp/aaaa'' = Inr 0"
    using Entropy_regular_file [of "''/tmp/aaaa''" demo_fs "replicate 4 0x61"]
    by (simp add: demo_fs_simps shannon_replicate round2_zero)
  show "Entropy exact_arith demo_fs ''/tmp/ab'' = Inr 1"
    using Entropy_regular_file [of "''/tmp/ab''" demo_fs "[0x61, 0x62]"]
    by (simp add: demo_fs_simps shannon_ab round2_def)
qed

lemma IsElfType_demo:
  "IsElfType demo_fs ''/tmp/empty'' = Inr False"
  "IsElfType demo_fs ''/tmp/aaaa'' = Inr False"
  by (simp_all add: IsElfType_def demo_fs_simps regular_file_simps IsRegular_def
      constMagicNumRead_def binary_Read_def elf_magic_decoded)

lemma digest_sizes_demo: "digest_sizes demo_crypto bs"
  by (simp add: digest_sizes_def demo_crypto_def md5_of_empty_def sha1_of_empty_def
      sha256_of_empty_def sha512_of_empty_def)

lemma hash_with_demo:
  "hash_with d demo_fs ''/tmp/empty'' = Inr []"
  "hash_with d demo_fs ''/tmp/aaaa'' = Inr (hex_EncodeToString (d (replicate 4 0x61)))"
  by (simp_all add: hash_with_def demo_fs_simps regular_file_simps IsRegular_def
      constMaxFileSize_def io_Copy_def)


subsection \<open>The result in rounded arithmetic\<close>










lemma laws_exact_on_integers:
  assumes "float64_laws fp rnd"
  shows "exact_on_integers fp"
  using assms unfolding exact_on_integers_def small_int_def float64_laws_def
  by (intro conjI allI impI) (metis, metis, metis, simp, simp)













section \<open>The ELF signature check\<close>

text \<open>
  Claim C2. As stated the claim fails for one of the targets it names: a broken
  symbolic link does not open, since \<^verbatim>\<open>os.Open\<close> follows the link, and
  \<^verbatim>\<open>IsElfType\<close> returns the open error before it looks at the file's mode, not
  false and no error.
\<close>

theorem IsElfType_dangling_link_counterexample:
  "demo_fs ''/tmp/dangling-link'' = None
   \<and> IsElfType demo_fs ''/tmp/dangling-link'' = Inl (ErrOpen ForElfType)
   \<and> IsElfType demo_fs ''/tmp/dangling-link'' \<noteq> Inr False"
  by (simp add: IsElfType_def demo_fs_def)

text \<open>
  Claim C2, as amended. \<^verbatim>\<open>IsElfType\<close> returns true exactly for a target that opens
  as a regular file of at least 4 bytes (by \<^verbatim>\<open>Stat\<close>) whose first 4 bytes read are
  \<^verbatim>\<open>7F 45 4C 46\<close>; a regular file of fewer than 4 bytes gives false and no error,
  and so does one of at least 4 bytes that begins with any other 4 bytes; a target
  that opens and is not a regular file (a device, a directory, a FIFO that has a
  writer) gives false and no error; a target that does not open (a broken symbolic
  link, a missing path) gives the open error, a failing \<^verbatim>\<open>Stat\<close> its error, a
  regular file that \<^verbatim>\<open>Stat\<close> reports as 4 bytes or more but that delivers fewer
  gives the error of the read (the I/O fault, \<^verbatim>\<open>io.EOF\<close> when it delivers nothing,
  \<^verbatim>\<open>io.ErrUnexpectedEOF\<close> otherwise), and the empty path gives an error.
\<close>

theorem IsElfType_spec:
  "((IsElfType fs p = Inr True) =
      (p \<noteq> [] \<and> (\<exists>f st. fs p = Some f \<and> stat f = Some st \<and> st_mode st = Regular \<and>
          4 \<le> st_size st \<and> take 4 (readable f) = [0x7F, 0x45, 0x4C, 0x46])))
   \<and> (p \<noteq> [] \<and> fs p = Some f \<and> stat f = Some st \<and> st_mode st = Regular \<and> st_size st < 4
        \<longrightarrow> IsElfType fs p = Inr False)
   \<and> (p \<noteq> [] \<and> fs p = Some f \<and> stat f = Some st \<and> st_mode st \<noteq> Regular
        \<longrightarrow> IsElfType fs p = Inr False)
   \<and> (p \<noteq> [] \<and> fs p = Some f \<and> stat f = Some st \<and> st_mode st = Regular \<and> 4 \<le> st_size st
        \<and> 4 \<le> length (readable f) \<and> take 4 (readable f) \<noteq> [0x7F, 0x45, 0x4C, 0x46]
        \<longrightarrow> IsElfType fs p = Inr False)
   \<and> (p \<noteq> [] \<and> fs p = None \<longrightarrow> IsElfType fs p = Inl (ErrOpen ForElfType))
   \<and> (p \<noteq> [] \<and> fs p = Some f \<and> stat f = None \<longrightarrow> IsElfType fs p = Inl ErrStat)
   \<and> (p \<noteq> [] \<and> fs p = Some f \<and> stat f = Some st \<and> st_mode st = Regular \<and> 4 \<le> st_size st
        \<and> length (readable f) < 4
        \<longrightarrow> IsElfType fs p =
              Inl (if read_fault f \<noteq> None then ErrRead ForElfType
                   else if readable f = [] then ErrEOF else ErrUnexpectedEOF))
   \<and> (p = [] \<longrightarrow> IsElfType fs p = Inl (ErrNoPath ForElfType))"
proof (intro conjI)
  show "(IsElfType fs p = Inr True) =
      (p \<noteq> [] \<and> (\<exists>f st. fs p = Some f \<and> stat f = Some st \<and> st_mode st = Regular \<and>
          4 \<le> st_size st \<and> take 4 (readable f) = [0x7F, 0x45, 0x4C, 0x46]))"
  proof
    assume t: "IsElfType fs p = Inr True"
    then have p: "p \<noteq> []" by (auto simp: IsElfType_def)
    from t p obtain f where f: "fs p = Some f"
      by (cases "fs p") (auto simp: IsElfType_def)
    from t p f obtain st where st: "stat f = Some st"
      by (cases "stat f") (auto simp: IsElfType_def)
    from t p f st have reg: "st_mode st = Regular" and sz: "4 \<le> st_size st"
      by (auto simp: IsElfType_def IsRegular_def constMagicNumRead_def split: if_splits)
    from t have "take 4 (readable f) = [0x7F, 0x45, 0x4C, 0x46]"
      unfolding IsElfType_regular_file [of p fs f st, OF p f st reg sz]
      by (auto simp: binary_Read_def split: if_splits)
    with p f st reg sz show "p \<noteq> [] \<and> (\<exists>f st. fs p = Some f \<and> stat f = Some st \<and>
        st_mode st = Regular \<and> 4 \<le> st_size st \<and> take 4 (readable f) = [0x7F, 0x45, 0x4C, 0x46])"
      by blast
  next
    assume "p \<noteq> [] \<and> (\<exists>f st. fs p = Some f \<and> stat f = Some st \<and> st_mode st = Regular \<and>
          4 \<le> st_size st \<and> take 4 (readable f) = [0x7F, 0x45, 0x4C, 0x46])"
    then obtain f st where p: "p \<noteq> []" and f: "fs p = Some f" and st: "stat f = Some st"
      and reg: "st_mode st = Regular" and sz: "4 \<le> st_size st"
      and m: "take 4 (readable f) = [0x7F, 0x45, 0x4C, 0x46]"
      by blast
    from m have "4 \<le> length (readable f)" by (rule take4_magic_length)
    with m show "IsElfType fs p = Inr True"
      unfolding IsElfType_regular_file [of p fs f st, OF p f st reg sz]
      by (simp add: binary_Read_def)
  qed
next
  show "p \<noteq> [] \<and> fs p = Some f \<and> stat f = Some st \<and> st_mode st = Regular \<and> st_size st < 4
        \<longrightarrow> IsElfType fs p = Inr False"
    by (simp add: IsElfType_def IsRegular_def constMagicNumRead_def)
next
  show "p \<noteq> [] \<and> fs p = Some f \<and> stat f = Some st \<and> st_mode st \<noteq> Regular
        \<longrightarrow> IsElfType fs p = Inr False"
    by (simp add: IsElfType_def IsRegular_def)
next
  show "p \<noteq> [] \<and> fs p = Some f \<and> stat f = Some st \<and> st_mode st = Regular \<and> 4 \<le> st_size st
        \<and> 4 \<le> length (readable f) \<and> take 4 (readable f) \<noteq> [0x7F, 0x45, 0x4C, 0x46]
        \<longrightarrow> IsElfType fs p = Inr False"
  proof
    assume h: "p \<noteq> [] \<and> fs p = Some f \<and> stat f = Some st \<and> st_mode st = Regular
        \<and> 4 \<le> st_size st \<and> 4 \<le> length (readable f)
        \<and> take 4 (readable f) \<noteq> [0x7F, 0x45, 0x4C, 0x46]"
    then have "p \<noteq> []" "fs p = Some f" "stat f = Some st" "st_mode st = Regular" "4 \<le> st_size st"
      by simp_all
    then have "IsElfType fs p =
        (case binary_Read f 4 of Inl err \<Rightarrow> Inl err
         | Inr hexData \<Rightarrow> Inr (hexData = [0x7F, 0x45, 0x4C, 0x46]))"
      by (rule IsElfType_regular_file)
    with h show "IsElfType fs p = Inr False"
      by (simp add: binary_Read_def)
  qed
next
  show "p \<noteq> [] \<and> fs p = None \<longrightarrow> IsElfType fs p = Inl (ErrOpen ForElfType)"
    by (simp add: IsElfType_def)
next
  show "p \<noteq> [] \<and> fs p = Some f \<and> stat f = None \<longrightarrow> IsElfType fs p = Inl ErrStat"
    by (simp add: IsElfType_def)
next
  show "p \<noteq> [] \<and> fs p = Some f \<and> stat f = Some st \<and> st_mode st = Regular \<and> 4 \<le> st_size st
        \<and> length (readable f) < 4
        \<longrightarrow> IsElfType fs p =
              Inl (if read_fault f \<noteq> None then ErrRead ForElfType
                   else if readable f = [] then ErrEOF else ErrUnexpectedEOF)"
  proof
    assume h: "p \<noteq> [] \<and> fs p = Some f \<and> stat f = Some st \<and> st_mode st = Regular
        \<and> 4 \<le> st_size st \<and> length (readable f) < 4"
    then have "p \<noteq> []" "fs p = Some f" "stat f = Some st" "st_mode st = Regular" "4 \<le> st_size st"
      by simp_all
    then have "IsElfType fs p =
        (case binary_Read f 4 of Inl err \<Rightarrow> Inl err
         | Inr hexData \<Rightarrow> Inr (hexData = [0x7F, 0x45, 0x4C, 0x46]))"
      by (rule IsElfType_regular_file)
    with h show "IsElfType fs p =
        Inl (if read_fault f \<noteq> None then ErrRead ForElfType
             else if readable f = [] then ErrEOF else ErrUnexpectedEOF)"
      by (simp add: binary_Read_def)
  qed
next
  show "p = [] \<longrightarrow> IsElfType fs p = Inl (ErrNoPath ForElfType)"
    by (simp add: IsElfType_def)
qed

theorem IsElfType_spec_witness:
  "IsElfType demo_fs ''/proc/1/exe'' = Inr True
   \<and> IsElfType demo_fs ''/tmp/abc'' = Inr False
   \<and> IsElfType demo_fs ''/tmp/aaaa'' = Inr False
   \<and> IsElfType demo_fs ''/dev/zero'' = Inr False
   \<and> IsElfType demo_fs ''/tmp/dangling-link'' = Inl (ErrOpen ForElfType)"
proof -
  have "IsElfType demo_fs ''/proc/1/exe'' = Inr True"
    using IsElfType_spec [where fs = demo_fs and p = "''/proc/1/exe''"]
    by (simp add: demo_fs_simps regular_file_simps)
  moreover have "IsElfType demo_fs ''/tmp/abc'' = Inr False"
    using IsElfType_spec [where fs = demo_fs and p = "''/tmp/abc''"
        and f = "regular_file [0x61, 0x62, 0x63]" and st = "\<lparr>st_mode = Regular, st_size = 3\<rparr>"]
    by (simp add: demo_fs_simps regular_file_simps)
  moreover have "IsElfType demo_fs ''/tmp/aaaa'' = Inr False"
  proof -
    have "(4 :: nat) = Suc (Suc (Suc (Suc 0)))" by simp
    then have r: "replicate 4 (0x61 :: byte) = [0x61, 0x61, 0x61, 0x61]"
      by (simp only: replicate_Suc replicate_0)
    show ?thesis
      using IsElfType_spec [where fs = demo_fs and p = "''/tmp/aaaa''"
          and f = "regular_file (replicate 4 0x61)" and st = "\<lparr>st_mode = Regular, st_size = 4\<rparr>"]
      by (simp add: demo_fs_simps regular_file_simps r)
  qed
  moreover have "IsElfType demo_fs ''/dev/zero'' = Inr False"
    using IsElfType_spec [where fs = demo_fs and p = "''/dev/zero''" and f = char_device
        and st = "\<lparr>st_mode = CharDevice, st_size = 0\<rparr>"]
    by (simp add: demo_fs_simps char_device_def)
  moreover have "IsElfType demo_fs ''/tmp/dangling-link'' = Inl (ErrOpen ForElfType)"
    using IsElfType_spec [where fs = demo_fs and p = "''/tmp/dangling-link''"]
    by (simp add: demo_fs_simps)
  ultimately show ?thesis by simp
qed

section \<open>The size ceiling\<close>

text \<open>
  Claim C5. For a regular file, \<^verbatim>\<open>Entropy\<close> and each of the four hash functions fail
  with the size error exactly when the size is strictly above 2,147,483,648 bytes;
  a file of exactly that size gets no size error; above it the five functions fail
  with the same kind of error, carrying the same size and the same limit.
\<close>

theorem size_ceiling:
  assumes "p \<noteq> []" "fs p = Some f" "stat f = Some st" "st_mode st = Regular"
  shows "((\<exists>n m. Entropy fp fs p = Inl (ErrTooLarge ForEntropy n m)) = (st_size st > 2147483648))
     \<and> ((\<exists>n m. HashMD5 c fs p = Inl (ErrTooLarge ForHash n m)) = (st_size st > 2147483648))
     \<and> ((\<exists>n m. HashSHA1 c fs p = Inl (ErrTooLarge ForHash n m)) = (st_size st > 2147483648))
     \<and> ((\<exists>n m. HashSHA256 c fs p = Inl (ErrTooLarge ForHash n m)) = (st_size st > 2147483648))
     \<and> ((\<exists>n m. HashSHA512 c fs p = Inl (ErrTooLarge ForHash n m)) = (st_size st > 2147483648))
     \<and> (st_size st > 2147483648 \<longrightarrow>
             Entropy fp fs p = Inl (ErrTooLarge ForEntropy (st_size st) 2147483648)
           \<and> HashMD5 c fs p = Inl (ErrTooLarge ForHash (st_size st) 2147483648)
           \<and> HashSHA1 c fs p = Inl (ErrTooLarge ForHash (st_size st) 2147483648)
           \<and> HashSHA256 c fs p = Inl (ErrTooLarge ForHash (st_size st) 2147483648)
           \<and> HashSHA512 c fs p = Inl (ErrTooLarge ForHash (st_size st) 2147483648))"
  using assms Entropy_too_large_iff [of p fs f st] hash_with_too_large_iff [of p fs f st]
  by (simp add: Hash_hash_with Entropy_opened [of p fs f st] hash_with_opened [of p fs f st])

theorem size_ceiling_witness:
  "Entropy exact_arith demo_fs ''/tmp/2GiB+1'' = Inl (ErrTooLarge ForEntropy 2147483649 2147483648)
   \<and> HashMD5 demo_crypto demo_fs ''/tmp/2GiB+1'' = Inl (ErrTooLarge ForHash 2147483649 2147483648)
   \<and> HashSHA1 demo_crypto demo_fs ''/tmp/2GiB+1'' = Inl (ErrTooLarge ForHash 2147483649 2147483648)
   \<and> HashSHA256 demo_crypto demo_fs ''/tmp/2GiB+1'' = Inl (ErrTooLarge ForHash 2147483649 2147483648)
   \<and> HashSHA512 demo_crypto demo_fs ''/tmp/2GiB+1'' = Inl (ErrTooLarge ForHash 2147483649 2147483648)
   \<and> (\<nexists>n m. Entropy exact_arith demo_fs ''/tmp/2GiB'' = Inl (ErrTooLarge ForEntropy n m))
   \<and> (\<nexists>n m. HashMD5 demo_crypto demo_fs ''/tmp/2GiB'' = Inl (ErrTooLarge ForHash n m))
   \<and> (\<nexists>n m. HashSHA1 demo_crypto demo_fs ''/tmp/2GiB'' = Inl (ErrTooLarge ForHash n m))
   \<and> (\<nexists>n m. HashSHA256 demo_crypto demo_fs ''/tmp/2GiB'' = Inl (ErrTooLarge ForHash n m))
   \<and> (\<nexists>n m. HashSHA512 demo_crypto demo_fs ''/tmp/2GiB'' = Inl (ErrTooLarge ForHash n m))"
proof -
  have big: "''/tmp/2GiB+1'' \<noteq> []"
      "demo_fs ''/tmp/2GiB+1'' = Some (regular_file (replicate 2147483649 0))"
      "stat (regular_file (replicate 2147483649 0)) = Some \<lparr>st_mode = Regular, st_size = 2147483649\<rparr>"
      "st_mode \<lparr>st_mode = Regular, st_size = 2147483649\<rparr> = Regular"
    by (simp_all add: demo_fs_simps regular_file_simps)
  have lim: "''/tmp/2GiB'' \<noteq> []"
      "demo_fs ''/tmp/2GiB'' = Some (regular_file (replicate 2147483648 0))"
      "stat (regular_file (replicate 2147483648 0)) = Some \<lparr>st_mode = Regular, st_size = 2147483648\<rparr>"
      "st_mode \<lparr>st_mode = Regular, st_size = 2147483648\<rparr> = Regular"
    by (simp_all add: demo_fs_simps regular_file_simps)
  from size_ceiling [where fs = demo_fs and p = "''/tmp/2GiB+1''" and c = demo_crypto, OF big]
       size_ceiling [where fs = demo_fs and p = "''/tmp/2GiB''" and c = demo_crypto, OF lim]
  show ?thesis by simp
qed

section \<open>The classifier\<close>

text \<open>
  Claim C4. With \<^verbatim>\<open>elfOnly\<close> set and a threshold in [0, 8], a target that the
  signature check reports as not ELF gets a record whose entropy is the sentinel
  \<open>-1\<close> and whose four digests are empty: neither \<^verbatim>\<open>Entropy\<close> nor a hash function
  has a say in the result.
\<close>

theorem elfOnly_skips_non_elf:
  assumes "IsElfType fs p = Inr False" "0 \<le> thr" "thr \<le> 8"
  shows "checkFilePath fp c fs p True thr =
    Returns (\<lparr>path = p, name = snd (filepath_Split p), entropy = - 1, elf = False,
               hash = \<lparr>md5 = [], sha1 = [], sha256 = [], sha512 = []\<rparr>\<rparr>, None)"
  using assms by (simp add: checkFilePath_defs zero_hashes_def)

lemma IsElfType_demo_abc: "IsElfType demo_fs ''/tmp/abc'' = Inr False"
  by (simp add: IsElfType_def demo_fs_def regular_file_def IsRegular_def constMagicNumRead_def)

theorem elfOnly_skips_non_elf_witness:
  "checkFilePath exact_arith demo_crypto demo_fs ''/tmp/abc'' True 7.7 =
    Returns (\<lparr>path = ''/tmp/abc'', name = ''abc'', entropy = - 1, elf = False,
               hash = \<lparr>md5 = [], sha1 = [], sha256 = [], sha512 = []\<rparr>\<rparr>, None)"
  using elfOnly_skips_non_elf [where fs = demo_fs and p = "''/tmp/abc''" and thr = "7.7"
      and c = demo_crypto and fp = exact_arith, OF IsElfType_demo_abc]
  by (simp add: filepath_Split_def)

lemma checkFilePath_not_error_return:
  assumes "IsElfType fs p = Inr b"
  shows "checkFilePath fp c fs p eo thr \<noteq> Returns (fi, Some e)"
  using assms by (auto simp: checkFilePath_defs split: sum.splits)

text \<open>
  Claim C10. \<^verbatim>\<open>checkFilePath\<close> returns an error to its caller exactly when
  \<^verbatim>\<open>IsElfType\<close> returns one (and it is that error). When the entropy is computed
  and \<^verbatim>\<open>Entropy\<close> fails, or when the hashes are computed and one of them fails,
  nothing is returned: the program ends in \<^verbatim>\<open>log.Fatalf\<close>.
\<close>

theorem checkFilePath_error_iff:
  "((\<exists>fi e. checkFilePath fp c fs p eo thr = Returns (fi, Some e)) = (\<exists>e. IsElfType fs p = Inl e))
   \<and> (IsElfType fs p = Inl e \<longrightarrow> checkFilePath fp c fs p eo thr = Returns (zero_fileData, Some e))
   \<and> (IsElfType fs p = Inr b \<and> (\<not> eo \<or> b) \<and> Entropy fp fs p = Inl e
        \<longrightarrow> checkFilePath fp c fs p eo thr = LogFatal CalcEntropy e)
   \<and> (IsElfType fs p = Inr b \<and> (if \<not> eo \<or> b then Entropy fp fs p = Inr v else v = - 1) \<and> thr \<le> v
        \<and> (HashMD5 c fs p = Inl e \<or> HashSHA1 c fs p = Inl e
             \<or> HashSHA256 c fs p = Inl e \<or> HashSHA512 c fs p = Inl e)
        \<longrightarrow> (\<exists>st e'. checkFilePath fp c fs p eo thr = LogFatal st e' \<and> st \<noteq> CalcEntropy))"
proof (intro conjI)
  show "(\<exists>fi e. checkFilePath fp c fs p eo thr = Returns (fi, Some e)) = (\<exists>e. IsElfType fs p = Inl e)"
  proof (cases "IsElfType fs p")
    case (Inl err)
    then show ?thesis by (simp add: checkFilePath_def)
  next
    case (Inr isElf)
    then show ?thesis using checkFilePath_not_error_return [OF Inr] by simp
  qed
next
  show "IsElfType fs p = Inl e \<longrightarrow> checkFilePath fp c fs p eo thr = Returns (zero_fileData, Some e)"
    by (simp add: checkFilePath_def)
next
  show "IsElfType fs p = Inr b \<and> (\<not> eo \<or> b) \<and> Entropy fp fs p = Inl e
        \<longrightarrow> checkFilePath fp c fs p eo thr = LogFatal CalcEntropy e"
    by (auto simp: checkFilePath_defs)
next
  show "IsElfType fs p = Inr b \<and> (if \<not> eo \<or> b then Entropy fp fs p = Inr v else v = - 1) \<and> thr \<le> v
        \<and> (HashMD5 c fs p = Inl e \<or> HashSHA1 c fs p = Inl e
             \<or> HashSHA256 c fs p = Inl e \<or> HashSHA512 c fs p = Inl e)
        \<longrightarrow> (\<exists>st e'. checkFilePath fp c fs p eo thr = LogFatal st e' \<and> st \<noteq> CalcEntropy)"
    by (auto simp: checkFilePath_defs split: sum.splits if_splits)
qed

theorem checkFilePath_error_iff_witness:
  "checkFilePath exact_arith demo_crypto demo_fs ''/proc/2/exe'' True 0
     = Returns (zero_fileData, Some (ErrOpen ForElfType))
   \<and> checkFilePath exact_arith demo_crypto demo_fs ''/dev/zero'' False 0
     = LogFatal CalcEntropy (ErrNotRegular ForEntropy)
   \<and> (\<exists>st e'. checkFilePath exact_arith demo_crypto demo_fs ''/dev/zero'' True (- 1) = LogFatal st e'
        \<and> st \<noteq> CalcEntropy)"
proof -
  have 1: "IsElfType demo_fs ''/proc/2/exe'' = Inl (ErrOpen ForElfType)"
    by (simp add: IsElfType_def demo_fs_simps)
  have 2: "IsElfType demo_fs ''/dev/zero'' = Inr False"
    by (simp add: IsElfType_def demo_fs_simps char_device_def IsRegular_def)
  have 3: "Entropy exact_arith demo_fs ''/dev/zero'' = Inl (ErrNotRegular ForEntropy)"
    by (simp add: Entropy_def demo_fs_simps char_device_def IsRegular_def)
  have 4: "HashMD5 demo_crypto demo_fs ''/dev/zero'' = Inl (ErrNotRegular ForHash)"
    by (simp add: HashMD5_def demo_fs_simps char_device_def IsRegular_def)
  from checkFilePath_error_iff
         [where fp = exact_arith and c = demo_crypto and fs = demo_fs and p = "''/proc/2/exe''"
            and eo = True and thr = 0 and e = "ErrOpen ForElfType"]
       checkFilePath_error_iff
         [where fp = exact_arith and c = demo_crypto and fs = demo_fs and p = "''/dev/zero''"
            and eo = False and thr = 0 and e = "ErrNotRegular ForEntropy" and b = False]
       checkFilePath_error_iff
         [where fp = exact_arith and c = demo_crypto and fs = demo_fs and p = "''/dev/zero''"
            and eo = True and thr = "- 1" and e = "ErrNotRegular ForHash" and b = False
            and v = "- 1"]
       1 2 3 4
  show ?thesis by simp
qed

lemma Entropy_Inr_regular:
  assumes "Entropy fp fs p = Inr v" "fs p = Some f" "stat f = Some st"
  shows "p \<noteq> [] \<and> st_mode st = Regular"
  using assms by (auto simp: Entropy_def IsRegular_def split: if_splits)

lemma digest_sizes_nonempty:
  assumes "digest_sizes c x"
  shows "hex_EncodeToString (md5_Sum c x) \<noteq> []" "hex_EncodeToString (sha1_Sum c x) \<noteq> []"
    "hex_EncodeToString (sha256_Sum c x) \<noteq> []" "hex_EncodeToString (sha512_Sum c x) \<noteq> []"
proof -
  from assms have l: "length (md5_Sum c x) = 16" "length (sha1_Sum c x) = 20"
      "length (sha256_Sum c x) = 32" "length (sha512_Sum c x) = 64"
    by (simp_all add: digest_sizes_def)
  show "hex_EncodeToString (md5_Sum c x) \<noteq> []" using l(1) by (auto simp: hex_EncodeToString_Nil_iff)
  show "hex_EncodeToString (sha1_Sum c x) \<noteq> []" using l(2) by (auto simp: hex_EncodeToString_Nil_iff)
  show "hex_EncodeToString (sha256_Sum c x) \<noteq> []" using l(3) by (auto simp: hex_EncodeToString_Nil_iff)
  show "hex_EncodeToString (sha512_Sum c x) \<noteq> []" using l(4) by (auto simp: hex_EncodeToString_Nil_iff)
qed

text \<open>What the hash block leaves in the record, for a regular file.\<close>

lemma hash_block_regular:
  assumes "p \<noteq> []" "fs p = Some f" "stat f = Some st" "st_mode st = Regular"
    "hash_block c fs p thr fi0 = Returns fi"
  shows "entropy fi = entropy fi0 \<and> elf fi = elf fi0 \<and>
    hash fi =
      (if thr \<le> entropy fi0 then
         (if st_size st = 0 then \<lparr>md5 = [], sha1 = [], sha256 = [], sha512 = []\<rparr>
          else \<lparr>md5 = hex_EncodeToString (md5_Sum c (content f)),
                 sha1 = hex_EncodeToString (sha1_Sum c (content f)),
                 sha256 = hex_EncodeToString (sha256_Sum c (content f)),
                 sha512 = hex_EncodeToString (sha512_Sum c (content f))\<rparr>)
       else hash fi0)"
  using assms
  by (auto simp: hash_block_def Hash_hash_with hash_with_opened [of p fs f st]
      split: if_splits)

text \<open>
  Claim C3. As stated the claim fails: a zero-length file scanned without
  \<^verbatim>\<open>elfOnly\<close> at threshold 0 has its entropy computed, 0, which meets the
  threshold, and yet its four digests are empty, since each hash function returns
  the empty string for a file of size zero.
\<close>

theorem digests_at_threshold_counterexample:
  "Entropy exact_arith demo_fs ''/tmp/empty'' = Inr 0
   \<and> checkFilePath exact_arith demo_crypto demo_fs ''/tmp/empty'' False 0 =
       Returns (\<lparr>path = ''/tmp/empty'', name = ''empty'', entropy = 0, elf = False,
                 hash = \<lparr>md5 = [], sha1 = [], sha256 = [], sha512 = []\<rparr>\<rparr>, None)"
  by (simp add: checkFilePath_defs IsElfType_demo Entropy_demo Hash_hash_with hash_with_demo
      filepath_Split_def zero_hashes_def)

text \<open>
  Claim C3, as amended. For every target whose entropy the classifier computes,
  the record holds that entropy, and its four digests are non-empty exactly when the
  entropy is greater than or equal to the threshold and the file's size is not
  zero; in every other case all four are empty. (The digests have the standard sizes
  of 16, 20, 32 and 64 bytes.)
\<close>

theorem digests_iff_threshold:
  assumes "checkFilePath fp c fs p eo thr = Returns (fi, None)" "\<not> eo \<or> elf fi"
    "fs p = Some f" "stat f = Some st" "digest_sizes c (content f)"
  shows "Entropy fp fs p = Inr (entropy fi)
       \<and> ((md5 (hash fi) \<noteq> [] \<and> sha1 (hash fi) \<noteq> [] \<and> sha256 (hash fi) \<noteq> []
            \<and> sha512 (hash fi) \<noteq> []) = (thr \<le> entropy fi \<and> st_size st \<noteq> 0))
       \<and> ((md5 (hash fi) = [] \<and> sha1 (hash fi) = [] \<and> sha256 (hash fi) = []
            \<and> sha512 (hash fi) = []) = (\<not> (thr \<le> entropy fi \<and> st_size st \<noteq> 0)))"
proof -
  from assms(1) obtain b where b: "IsElfType fs p = Inr b"
    by (cases "IsElfType fs p") (auto simp: checkFilePath_def)
  define fi0 where "fi0 = \<lparr>path = p, name = snd (filepath_Split p), entropy = - 1,
      elf = b, hash = zero_hashes\<rparr>"
  from assms(1) b obtain fi1 fi2 where
    s1: "entropy_block fp fs p (eo \<and> b) fi0 = Returns fi1" and
    s2: "entropy_block fp fs p (\<not> eo) fi1 = Returns fi2" and
    s3: "hash_block c fs p thr fi2 = Returns fi"
    by (auto simp: checkFilePath_def run_bind_def Let_def fi0_def split: run.splits)
  have elf1: "elf fi1 = b" and h1: "hash fi1 = zero_hashes"
    using s1 by (auto simp: entropy_block_def fi0_def split: if_splits sum.splits)
  have elf2: "elf fi2 = b" and h2: "hash fi2 = zero_hashes"
    using s2 elf1 h1 by (auto simp: entropy_block_def split: if_splits sum.splits)
  have elf3: "elf fi = b"
    using s3 elf2
    by (auto simp: hash_block_def split: if_splits sum.splits)
  with assms(2) have computed: "\<not> eo \<or> b" by simp
  have ent2: "Entropy fp fs p = Inr (entropy fi2)"
  proof (cases eo)
    case True
    with computed have "b" by simp
    with True s1 have "Entropy fp fs p = Inr (entropy fi1)"
      by (auto simp: entropy_block_def split: sum.splits)
    moreover from True s2 have "fi2 = fi1" by (simp add: entropy_block_def)
    ultimately show ?thesis by simp
  next
    case False
    with s2 show ?thesis by (auto simp: entropy_block_def split: sum.splits)
  qed
  from Entropy_Inr_regular [OF ent2 assms(3,4)]
  have p: "p \<noteq> []" and reg: "st_mode st = Regular" by simp_all
  note hb = hash_block_regular [OF p assms(3,4) reg s3]
  from hb have ent: "entropy fi = entropy fi2" by simp
  note ne = digest_sizes_nonempty [OF assms(5)]
  show ?thesis
    using hb ent2 ent h2 ne by (auto simp: zero_hashes_def)
qed

lemma checkFilePath_demo_aaaa:
  "checkFilePath exact_arith demo_crypto demo_fs ''/tmp/aaaa'' False thr =
     Returns (\<lparr>path = ''/tmp/aaaa'', name = ''aaaa'', entropy = 0, elf = False,
               hash = (if thr \<le> 0
                 then \<lparr>md5 = hex_EncodeToString md5_of_empty,
                        sha1 = hex_EncodeToString sha1_of_empty,
                        sha256 = hex_EncodeToString sha256_of_empty,
                        sha512 = hex_EncodeToString sha512_of_empty\<rparr>
                 else zero_hashes)\<rparr>, None)"
  by (simp add: checkFilePath_defs IsElfType_demo Entropy_demo Hash_hash_with hash_with_demo
      filepath_Split_def demo_crypto_def)

theorem digests_iff_threshold_witness:
  "(\<exists>fi. checkFilePath exact_arith demo_crypto demo_fs ''/tmp/aaaa'' False 0 = Returns (fi, None)
       \<and> entropy fi = 0
       \<and> md5 (hash fi) \<noteq> [] \<and> sha1 (hash fi) \<noteq> [] \<and> sha256 (hash fi) \<noteq> []
       \<and> sha512 (hash fi) \<noteq> [])
   \<and> (\<exists>fi. checkFilePath exact_arith demo_crypto demo_fs ''/tmp/aaaa'' False 7.7 = Returns (fi, None)
       \<and> entropy fi = 0
       \<and> md5 (hash fi) = [] \<and> sha1 (hash fi) = [] \<and> sha256 (hash fi) = []
       \<and> sha512 (hash fi) = [])"
proof -
  have f: "demo_fs ''/tmp/aaaa'' = Some (regular_file (replicate 4 0x61))"
    by (simp add: demo_fs_simps)
  have st: "stat (regular_file (replicate 4 0x61)) = Some \<lparr>st_mode = Regular, st_size = 4\<rparr>"
    by (simp add: regular_file_simps)
  obtain fi where fi: "checkFilePath exact_arith demo_crypto demo_fs ''/tmp/aaaa'' False 0 = Returns (fi, None)"
    and e: "entropy fi = 0"
    using checkFilePath_demo_aaaa [of 0] by simp
  obtain fj where fj: "checkFilePath exact_arith demo_crypto demo_fs ''/tmp/aaaa'' False 7.7 = Returns (fj, None)"
    and e': "entropy fj = 0"
    using checkFilePath_demo_aaaa [of "7.7"] by simp
  from digests_iff_threshold [where fs = demo_fs and p = "''/tmp/aaaa''", OF fi _ f st digest_sizes_demo] e
  have "md5 (hash fi) \<noteq> [] \<and> sha1 (hash fi) \<noteq> [] \<and> sha256 (hash fi) \<noteq> []
       \<and> sha512 (hash fi) \<noteq> []" by simp
  moreover
  from digests_iff_threshold [where fs = demo_fs and p = "''/tmp/aaaa''", OF fj _ f st digest_sizes_demo] e'
  have "md5 (hash fj) = [] \<and> sha1 (hash fj) = [] \<and> sha256 (hash fj) = []
       \<and> sha512 (hash fj) = []" by simp
  ultimately show ?thesis using fi fj e e' by blast
qed

text \<open>
  Claim C9. As stated the claim fails: a target that is not a regular file, scanned
  without \<^verbatim>\<open>elfOnly\<close>, ends the program, because \<^verbatim>\<open>checkFilePath\<close> turns
  the failure of \<^verbatim>\<open>Entropy\<close> into \<^verbatim>\<open>log.Fatalf\<close>. Here it is a character
  device given to the single-file scan.
\<close>

theorem non_regular_terminates_counterexample:
  "stat char_device = Some \<lparr>st_mode = CharDevice, st_size = 0\<rparr>
   \<and> demo_fs ''/dev/zero'' = Some char_device
   \<and> checkFilePath exact_arith demo_crypto demo_fs ''/dev/zero'' False 0
       = LogFatal CalcEntropy (ErrNotRegular ForEntropy)
   \<and> main_file exact_arith demo_crypto demo_fs ''/dev/zero'' False 0
       = ([], FatalCheck CalcEntropy (ErrNotRegular ForEntropy))"
  by (simp add: main_file_def checkFilePath_defs IsElfType_def Entropy_def demo_fs_simps
      char_device_def IsRegular_def)

text \<open>
  Claim C9, as amended. For a non-regular-file target the outcome depends on whether
  the target opens. One that does not open (a broken symbolic link, a socket) makes
  the signature check, and with it the classifier, return the open error: the
  single-file scan then ends the program with a fatal message and the process scan
  goes on to the next candidate. One that opens and whose \<^verbatim>\<open>Stat\<close> fails makes the
  classifier return that error. One that opens and that \<^verbatim>\<open>Stat\<close> reports as not
  regular (a device, a directory, a FIFO that has a writer) gets a benign negative
  signature result (false, no error), and \<^verbatim>\<open>Entropy\<close> and the four hash functions
  fail on it with the not-a-regular-file error; with \<^verbatim>\<open>elfOnly\<close> set and a threshold
  of at least 0 the classifier returns the record with the sentinel entropy and empty
  digests, and without \<^verbatim>\<open>elfOnly\<close> it ends the program in \<^verbatim>\<open>log.Fatalf\<close> on the
  entropy failure.
\<close>

theorem non_regular_target:
  assumes "p \<noteq> []"
  shows "(fs p = None \<longrightarrow>
            IsElfType fs p = Inl (ErrOpen ForElfType)
          \<and> checkFilePath fp c fs p eo thr = Returns (zero_fileData, Some (ErrOpen ForElfType))
          \<and> main_file fp c fs p eo thr = ([], FatalFile (ErrOpen ForElfType))
          \<and> proc_loop fp c fs thr (p # rest) printed = proc_loop fp c fs thr rest printed)
       \<and> (fs p = Some f \<and> stat f = None \<longrightarrow>
            IsElfType fs p = Inl ErrStat
          \<and> checkFilePath fp c fs p eo thr = Returns (zero_fileData, Some ErrStat))
       \<and> (fs p = Some f \<and> stat f = Some st \<and> st_mode st \<noteq> Regular \<longrightarrow>
            IsElfType fs p = Inr False
          \<and> Entropy fp fs p = Inl (ErrNotRegular ForEntropy)
          \<and> HashMD5 c fs p = Inl (ErrNotRegular ForHash)
          \<and> HashSHA1 c fs p = Inl (ErrNotRegular ForHash)
          \<and> HashSHA256 c fs p = Inl (ErrNotRegular ForHash)
          \<and> HashSHA512 c fs p = Inl (ErrNotRegular ForHash)
          \<and> (0 \<le> thr \<longrightarrow> checkFilePath fp c fs p True thr =
                Returns (\<lparr>path = p, name = snd (filepath_Split p), entropy = - 1, elf = False,
                          hash = \<lparr>md5 = [], sha1 = [], sha256 = [], sha512 = []\<rparr>\<rparr>, None))
          \<and> checkFilePath fp c fs p False thr = LogFatal CalcEntropy (ErrNotRegular ForEntropy)
          \<and> main_file fp c fs p False thr
               = ([], FatalCheck CalcEntropy (ErrNotRegular ForEntropy)))"
proof (intro conjI impI)
  assume n: "fs p = None"
  with assms show e: "IsElfType fs p = Inl (ErrOpen ForElfType)"
    by (simp add: IsElfType_def)
  then show r: "checkFilePath fp c fs p eo thr = Returns (zero_fileData, Some (ErrOpen ForElfType))"
    by (simp add: checkFilePath_def)
  then show "main_file fp c fs p eo thr = ([], FatalFile (ErrOpen ForElfType))"
    by (simp add: main_file_def)
  from e have "checkFilePath fp c fs p True thr = Returns (zero_fileData, Some (ErrOpen ForElfType))"
    by (simp add: checkFilePath_def)
  then show "proc_loop fp c fs thr (p # rest) printed = proc_loop fp c fs thr rest printed"
    by simp
next
  assume "fs p = Some f \<and> stat f = None"
  with assms show e: "IsElfType fs p = Inl ErrStat"
    by (simp add: IsElfType_def)
  then show "checkFilePath fp c fs p eo thr = Returns (zero_fileData, Some ErrStat)"
    by (simp add: checkFilePath_def)
next
  assume h: "fs p = Some f \<and> stat f = Some st \<and> st_mode st \<noteq> Regular"
  then have f: "fs p = Some f" and st: "stat f = Some st" and m: "st_mode st \<noteq> Regular"
    by simp_all
  show elf: "IsElfType fs p = Inr False"
    using assms f st m by (simp add: IsElfType_def IsRegular_def)
  show ent: "Entropy fp fs p = Inl (ErrNotRegular ForEntropy)"
    using assms f st m by (simp add: Entropy_opened [of p fs f st])
  have hw: "hash_with d fs p = Inl (ErrNotRegular ForHash)" for d
    using assms f st m by (simp add: hash_with_opened [of p fs f st])
  show "HashMD5 c fs p = Inl (ErrNotRegular ForHash)"
    "HashSHA1 c fs p = Inl (ErrNotRegular ForHash)"
    "HashSHA256 c fs p = Inl (ErrNotRegular ForHash)"
    "HashSHA512 c fs p = Inl (ErrNotRegular ForHash)"
    by (simp_all add: Hash_hash_with hw)
  show fatal: "checkFilePath fp c fs p False thr = LogFatal CalcEntropy (ErrNotRegular ForEntropy)"
    using elf ent by (simp add: checkFilePath_defs)
  then show "main_file fp c fs p False thr = ([], FatalCheck CalcEntropy (ErrNotRegular ForEntropy))"
    by (simp add: main_file_def)
  assume "0 \<le> thr"
  with elf show "checkFilePath fp c fs p True thr =
      Returns (\<lparr>path = p, name = snd (filepath_Split p), entropy = - 1, elf = False,
                hash = \<lparr>md5 = [], sha1 = [], sha256 = [], sha512 = []\<rparr>\<rparr>, None)"
    by (simp add: checkFilePath_defs zero_hashes_def)
qed

theorem non_regular_target_witness:
  "IsElfType demo_fs ''/dev/zero'' = Inr False
   \<and> Entropy exact_arith demo_fs ''/dev/zero'' = Inl (ErrNotRegular ForEntropy)
   \<and> HashMD5 demo_crypto demo_fs ''/dev/zero'' = Inl (ErrNotRegular ForHash)
   \<and> checkFilePath exact_arith demo_crypto demo_fs ''/dev/zero'' True 0 =
        Returns (\<lparr>path = ''/dev/zero'', name = ''zero'', entropy = - 1, elf = False,
                  hash = \<lparr>md5 = [], sha1 = [], sha256 = [], sha512 = []\<rparr>\<rparr>, None)
   \<and> checkFilePath exact_arith demo_crypto demo_fs ''/dev/zero'' False 0
        = LogFatal CalcEntropy (ErrNotRegular ForEntropy)
   \<and> IsElfType demo_fs ''/tmp/dangling-link'' = Inl (ErrOpen ForElfType)
   \<and> checkFilePath exact_arith demo_crypto demo_fs ''/tmp/dangling-link'' True 0
        = Returns (zero_fileData, Some (ErrOpen ForElfType))
   \<and> main_file exact_arith demo_crypto demo_fs ''/tmp/dangling-link'' True 0
        = ([], FatalFile (ErrOpen ForElfType))"
proof -
  have z: "''/dev/zero'' \<noteq> []" and d: "''/tmp/dangling-link'' \<noteq> []"
    by simp_all
  have zf: "demo_fs ''/dev/zero'' = Some char_device
      \<and> stat char_device = Some \<lparr>st_mode = CharDevice, st_size = 0\<rparr>
      \<and> st_mode \<lparr>st_mode = CharDevice, st_size = 0\<rparr> \<noteq> Regular"
    by (simp add: demo_fs_simps char_device_def)
  have df: "demo_fs ''/tmp/dangling-link'' = None"
    by (simp add: demo_fs_simps)
  note t1 = non_regular_target [where fs = demo_fs and p = "''/dev/zero''" and c = demo_crypto
      and fp = exact_arith and thr = 0 and f = char_device
      and st = "\<lparr>st_mode = CharDevice, st_size = 0\<rparr>", OF z]
  note t2 = non_regular_target [where fs = demo_fs and p = "''/tmp/dangling-link''"
      and c = demo_crypto and fp = exact_arith and thr = 0 and eo = True, OF d]
  from t1 [THEN conjunct2, THEN conjunct2] zf
  have a: "IsElfType demo_fs ''/dev/zero'' = Inr False
      \<and> Entropy exact_arith demo_fs ''/dev/zero'' = Inl (ErrNotRegular ForEntropy)
      \<and> HashMD5 demo_crypto demo_fs ''/dev/zero'' = Inl (ErrNotRegular ForHash)
      \<and> checkFilePath exact_arith demo_crypto demo_fs ''/dev/zero'' True 0 =
        Returns (\<lparr>path = ''/dev/zero'', name = ''zero'', entropy = - 1, elf = False,
                  hash = \<lparr>md5 = [], sha1 = [], sha256 = [], sha512 = []\<rparr>\<rparr>, None)
      \<and> checkFilePath exact_arith demo_crypto demo_fs ''/dev/zero'' False 0
        = LogFatal CalcEntropy (ErrNotRegular ForEntropy)"
    by (simp add: filepath_Split_def)
  from t2 [THEN conjunct1] df
  have b: "IsElfType demo_fs ''/tmp/dangling-link'' = Inl (ErrOpen ForElfType)
      \<and> checkFilePath exact_arith demo_crypto demo_fs ''/tmp/dangling-link'' True 0
        = Returns (zero_fileData, Some (ErrOpen ForElfType))
      \<and> main_file exact_arith demo_crypto demo_fs ''/tmp/dangling-link'' True 0
        = ([], FatalFile (ErrOpen ForElfType))"
    by simp
  from a b show ?thesis by simp
qed

section \<open>The four digests\<close>

text \<open>
  Claim C8. As stated the claim fails: for a zero-length regular file each of the four
  hash functions returns the empty string, not the digest of the empty input
  (for MD5, \<^verbatim>\<open>d41d8cd98f00b204e9800998ecf8427e\<close>), although the digest library
  would give that value.
\<close>

theorem hash_of_empty_file_counterexample:
  "HashMD5 demo_crypto demo_fs ''/tmp/empty'' = Inr []
   \<and> HashSHA1 demo_crypto demo_fs ''/tmp/empty'' = Inr []
   \<and> HashSHA256 demo_crypto demo_fs ''/tmp/empty'' = Inr []
   \<and> HashSHA512 demo_crypto demo_fs ''/tmp/empty'' = Inr []
   \<and> HashMD5 demo_crypto demo_fs ''/tmp/empty'' \<noteq> Inr ''d41d8cd98f00b204e9800998ecf8427e''
   \<and> hex_EncodeToString (md5_Sum demo_crypto []) = ''d41d8cd98f00b204e9800998ecf8427e''"
  by (simp add: Hash_hash_with hash_with_def demo_fs_def regular_file_def IsRegular_def
      demo_crypto_def md5_of_empty_def hex_EncodeToString_def hextable_def)

text \<open>
  Claim C8, as amended. For a regular file, each of the four hash functions returns
  the empty string and no error when the size is zero, and the hexadecimal encoding
  of the digest of the content when the size is not zero and within the ceiling and
  the reads succeed; the encoding uses the digits \<^verbatim>\<open>0-9\<close> and the lowercase letters
  \<^verbatim>\<open>a-f\<close> only, two per byte.
\<close>

theorem hash_of_file:
  assumes "p \<noteq> []" "fs p = Some f" "stat f = Some st" "st_mode st = Regular"
  shows "(st_size st = 0 \<longrightarrow>
            HashMD5 c fs p = Inr [] \<and> HashSHA1 c fs p = Inr []
          \<and> HashSHA256 c fs p = Inr [] \<and> HashSHA512 c fs p = Inr [])
       \<and> (st_size st \<noteq> 0 \<and> st_size st \<le> 2147483648 \<and> read_fault f = None \<longrightarrow>
            HashMD5 c fs p = Inr (hex_EncodeToString (md5_Sum c (content f)))
          \<and> HashSHA1 c fs p = Inr (hex_EncodeToString (sha1_Sum c (content f)))
          \<and> HashSHA256 c fs p = Inr (hex_EncodeToString (sha256_Sum c (content f)))
          \<and> HashSHA512 c fs p = Inr (hex_EncodeToString (sha512_Sum c (content f))))
       \<and> set (hex_EncodeToString bs) \<subseteq> set ''0123456789abcdef''
       \<and> length (hex_EncodeToString bs) = 2 * length bs"
  using assms
  by (simp add: Hash_hash_with hash_with_opened [of p fs f st]
      hex_EncodeToString_lowercase hex_EncodeToString_length del: set_simps)

theorem hash_of_file_witness:
  "HashMD5 demo_crypto demo_fs ''/tmp/empty'' = Inr []
   \<and> HashSHA1 demo_crypto demo_fs ''/tmp/empty'' = Inr []
   \<and> HashSHA256 demo_crypto demo_fs ''/tmp/empty'' = Inr []
   \<and> HashSHA512 demo_crypto demo_fs ''/tmp/empty'' = Inr []
   \<and> HashMD5 demo_crypto demo_fs ''/tmp/abc''
       = Inr (hex_EncodeToString (md5_Sum demo_crypto [0x61, 0x62, 0x63]))
   \<and> HashSHA512 demo_crypto demo_fs ''/tmp/abc''
       = Inr (hex_EncodeToString (sha512_Sum demo_crypto [0x61, 0x62, 0x63]))"
proof -
  have e: "''/tmp/empty'' \<noteq> []" "demo_fs ''/tmp/empty'' = Some (regular_file [])"
      "stat (regular_file []) = Some \<lparr>st_mode = Regular, st_size = 0\<rparr>"
      "st_mode \<lparr>st_mode = Regular, st_size = 0\<rparr> = Regular"
    by (simp_all add: demo_fs_simps regular_file_simps)
  have a: "''/tmp/abc'' \<noteq> []" "demo_fs ''/tmp/abc'' = Some (regular_file [0x61, 0x62, 0x63])"
      "stat (regular_file [0x61, 0x62, 0x63]) = Some \<lparr>st_mode = Regular, st_size = 3\<rparr>"
      "st_mode \<lparr>st_mode = Regular, st_size = 3\<rparr> = Regular"
    by (simp_all add: demo_fs_simps regular_file_simps)
  from hash_of_file [where fs = demo_fs and p = "''/tmp/empty''" and c = demo_crypto and bs = "[]", OF e]
       hash_of_file [where fs = demo_fs and p = "''/tmp/abc''" and c = demo_crypto and bs = "[]", OF a]
  show ?thesis by (simp add: regular_file_simps)
qed

section \<open>The process scan\<close>

lemma digit_char_props:
  assumes "d < 10"
  shows "digit_char d \<noteq> CHR ''/''" "digit_char d \<noteq> CHR ''.''"
proof -
  have "length ''0123456789'' = 10" by simp
  with assms have "''0123456789'' ! d \<in> set ''0123456789''" by (simp only: nth_mem)
  then show "digit_char d \<noteq> CHR ''/''" "digit_char d \<noteq> CHR ''.''"
    by (auto simp: digit_char_def)
qed

lemma digits10_chars:
  "c \<in> set (digits10 n) \<Longrightarrow> c \<noteq> CHR ''/'' \<and> c \<noteq> CHR ''.''"
proof (induction n arbitrary: c rule: digits10.induct)
  case (1 n)
  show ?case
  proof (cases "n < 10")
    case True
    with "1.prems" show ?thesis
      by (subst (asm) digits10.simps) (simp add: digit_char_props)
  next
    case False
    have m: "n mod 10 < 10" by simp
    from "1.prems" False have "c \<in> set (digits10 (n div 10)) \<or> c = digit_char (n mod 10)"
      by (subst (asm) digits10.simps) auto
    with "1.IH" [OF False] digit_char_props [OF m] show ?thesis by auto
  qed
qed

lemma digits10_nonempty: "digits10 n \<noteq> []"
  by (subst digits10.simps) simp

lemma Itoa_element:
  assumes "0 \<le> i"
  shows "CHR ''/'' \<notin> set (Itoa i)" "Itoa i \<noteq> []" "Itoa i \<noteq> ''.''" "Itoa i \<noteq> ''..''"
proof -
  have e: "Itoa i = digits10 (nat i)" using assms by (simp add: Itoa_def)
  show "CHR ''/'' \<notin> set (Itoa i)" unfolding e using digits10_chars by blast
  show "Itoa i \<noteq> []" unfolding e by (rule digits10_nonempty)
  have "CHR ''.'' \<notin> set (Itoa i)" unfolding e using digits10_chars by blast
  then show "Itoa i \<noteq> ''.''" "Itoa i \<noteq> ''..''" by auto
qed

lemma split_slash_element:
  assumes "CHR ''/'' \<notin> set e"
  shows "split_slash (e @ CHR ''/'' # rest) = e # split_slash rest"
  using assms by (induction e) auto

lemma split_slash_last:
  assumes "CHR ''/'' \<notin> set e"
  shows "split_slash e = [e]"
  using assms by (induction e) auto

lemma path_Join_proc_exe:
  assumes "CHR ''/'' \<notin> set e" "e \<noteq> []" "e \<noteq> ''.''" "e \<noteq> ''..''"
  shows "path_Join [constProcDir, e, ''/exe''] = ''/proc/'' @ e @ ''/exe''"
proof -
  have j: "join_slash (dropWhile (\<lambda>e. e = []) [constProcDir, e, ''/exe''])
      = ''/proc/'' @ e @ ''//exe''"
    by (simp add: constProcDir_def)
  have s: "split_slash (''/proc/'' @ e @ ''//exe'') = [[], ''proc'', e, [], ''exe'']"
    using split_slash_element [OF assms(1), of "''/exe''"] by simp
  have "path_Clean (''/proc/'' @ e @ ''//exe'') = ''/proc/'' @ e @ ''/exe''"
    using assms(2,3,4) s by (auto simp: path_Clean_def Let_def)
  then show ?thesis
    unfolding path_Join_def j by (simp add: constProcDir_def)
qed

lemma genPIDExePaths_loop_eq:
  "genPIDExePaths_loop pid pidPaths =
     pidPaths @ map (\<lambda>pid. path_Join [constProcDir, Itoa pid, ''/exe'']) [pid..constMaxPID - 1]"
proof (induction pid pidPaths rule: genPIDExePaths_loop.induct)
  case (1 pid pidPaths)
  show ?case
  proof (cases "pid < constMaxPID")
    case True
    then have u: "[pid..constMaxPID - 1] = pid # [pid + 1..constMaxPID - 1]"
      by (simp add: upto_rec1)
    show ?thesis
      by (subst genPIDExePaths_loop.simps) (simp add: True "1.IH" [OF True] u)
  next
    case False
    then show ?thesis
      by (subst genPIDExePaths_loop.simps) simp
  qed
qed

lemma digit_char_code:
  assumes "d < 10"
  shows "of_char (digit_char d) = 48 + d"
proof -
  from assms have "d \<in> {0, 1, 2, 3, 4, 5, 6, 7, 8, 9}" by auto
  then show ?thesis by (auto simp: digit_char_def)
qed

lemma digits10_value:
  "foldl (\<lambda>a c. 10 * a + (of_char c - 48)) 0 (digits10 n) = n"
proof (induction n rule: digits10.induct)
  case (1 n)
  show ?case
  proof (cases "n < 10")
    case True
    then show ?thesis
      by (subst digits10.simps) (simp add: digit_char_code)
  next
    case False
    have m: "n mod 10 < 10" by simp
    show ?thesis
      by (subst digits10.simps) (simp add: False "1.IH" [OF False] digit_char_code [OF m])
  qed
qed

lemma digits10_inj:
  assumes "digits10 m = digits10 n"
  shows "m = n"
proof -
  have "m = foldl (\<lambda>a c. 10 * a + (of_char c - 48)) 0 (digits10 m)"
    by (simp only: digits10_value)
  also have "\<dots> = foldl (\<lambda>a c. 10 * a + (of_char c - 48)) 0 (digits10 n)"
    by (simp only: assms)
  also have "\<dots> = n"
    by (simp only: digits10_value)
  finally show ?thesis .
qed

lemma Itoa_inj:
  assumes "0 \<le> i" "0 \<le> j" "Itoa i = Itoa j"
  shows "i = j"
proof -
  from assms have "digits10 (nat i) = digits10 (nat j)" by (simp add: Itoa_def)
  then have "nat i = nat j" by (rule digits10_inj)
  with assms(1,2) show ?thesis by simp
qed

lemma Itoa_examples:
  "Itoa 1 = ''1''" "Itoa 4194303 = ''4194303''"
  by (simp_all add: Itoa_def digits10.simps digit_char_def)


text \<open>
  Claim C6. \<^verbatim>\<open>genPIDExePaths\<close> returns, with a nil error, the list of the paths
  \<^verbatim>\<open>/proc/<pid>/exe\<close> for \<open>pid\<close> from 1 to 4194303 in increasing order, \<open>pid\<close>
  written in decimal: \<open>maxPID - minPID = 4194303\<close> paths, no two of them equal, the
  first \<^verbatim>\<open>/proc/1/exe\<close> and the last \<^verbatim>\<open>/proc/4194303/exe\<close>. The function takes
  no file system: it performs no I/O.
\<close>

theorem genPIDExePaths_spec:
  "genPIDExePaths = (map (\<lambda>pid. ''/proc/'' @ Itoa pid @ ''/exe'') [1..4194303], None)
   \<and> length (fst genPIDExePaths) = 4194303
   \<and> length (fst genPIDExePaths) = nat (constMaxPID - constMinPID)
   \<and> distinct (fst genPIDExePaths)
   \<and> fst genPIDExePaths ! 0 = ''/proc/1/exe''
   \<and> fst genPIDExePaths ! 4194302 = ''/proc/4194303/exe''"
proof -
  have "map (\<lambda>pid. path_Join [constProcDir, Itoa pid, ''/exe'']) [1..4194303]
      = map (\<lambda>pid. ''/proc/'' @ Itoa pid @ ''/exe'') [1..4194303]"
  proof (rule map_cong [OF refl])
    fix pid :: int assume "pid \<in> set [1..4194303]"
    then have "0 \<le> pid" by simp
    from Itoa_element [OF this]
    show "path_Join [constProcDir, Itoa pid, ''/exe''] = ''/proc/'' @ Itoa pid @ ''/exe''"
      by (rule path_Join_proc_exe)
  qed
  then have g: "genPIDExePaths = (map (\<lambda>pid. ''/proc/'' @ Itoa pid @ ''/exe'') [1..4194303], None)"
    by (simp add: genPIDExePaths_def genPIDExePaths_loop_eq constMinPID_def constMaxPID_def)
  have inj: "inj_on (\<lambda>pid. ''/proc/'' @ Itoa pid @ ''/exe'') (set [1..4194303])"
  proof (rule inj_onI)
    fix x y :: int
    assume x: "x \<in> set [1..4194303]" and y: "y \<in> set [1..4194303]"
      and e: "''/proc/'' @ Itoa x @ ''/exe'' = ''/proc/'' @ Itoa y @ ''/exe''"
    from e have "Itoa x = Itoa y" by simp
    moreover from x y have "0 \<le> x" "0 \<le> y" by simp_all
    ultimately show "x = y" by (simp only: Itoa_inj)
  qed
  have d: "distinct (map (\<lambda>pid. ''/proc/'' @ Itoa pid @ ''/exe'') [1..4194303])"
    using inj by (simp add: distinct_map)
  have first: "[1..4194303] ! 0 = (1 :: int)"
    using nth_upto [of 1 0 4194303] by simp
  have last: "[1..4194303] ! 4194302 = (4194303 :: int)"
    using nth_upto [of 1 4194302 4194303] by simp
  show ?thesis
    unfolding g using d first last
    by (simp add: constMinPID_def constMaxPID_def Itoa_examples)
qed


















end
